theory Spec2Isabelle
  imports Main "HOL-Library.Word"
begin

section \<open>Go values used by the OCI backend\<close>

text \<open>
  The backend lives in \<^verbatim>\<open>internal/backend/oci/oci.go\<close> and
  \<^verbatim>\<open>internal/backend/oci/config.go\<close>. Go's \<^verbatim>\<open>int64\<close> is a 64-bit word read
  in two's complement, a Go string is a list of bytes, a pointer that may be nil is an
  option, and a value of the interface \<^verbatim>\<open>error\<close> that may be nil is an
  \<open>error option\<close>.
\<close>

type_synonym int64 = "64 word"

text \<open>
  The error values the backend handles: a \<^verbatim>\<open>common.ServiceError\<close> of the
  object store's client with its HTTP status code, an error made by \<^verbatim>\<open>errors.New\<close>
  or \<^verbatim>\<open>errors.Errorf\<close>, an error annotated by \<^verbatim>\<open>errors.Wrap\<close>, and the two
  errors of a context.
\<close>

datatype error =
    ServiceError int string
  | ErrorString string
  | Wrapped error string
  | Canceled
  | DeadlineExceeded

text \<open>
  \<^verbatim>\<open>errors.Wrap(err, msg)\<close> is nil for a nil \<^verbatim>\<open>err\<close>: \<^verbatim>\<open>Save\<close> and
  \<^verbatim>\<open>Remove\<close> return it on their success paths.
\<close>

fun Wrap :: "error option \<Rightarrow> string \<Rightarrow> error option" where
  "Wrap None msg = None"
| "Wrap (Some e) msg = Some (Wrapped e msg)"

text \<open>
  \<^verbatim>\<open>errors.As(err, &e)\<close> with \<^verbatim>\<open>e\<close> a \<^verbatim>\<open>common.ServiceError\<close>: the first
  service error along the chain of wrapped errors, read for its status code.
\<close>

fun As_ServiceError :: "error \<Rightarrow> int option" where
  "As_ServiceError (ServiceError code msg) = Some code"
| "As_ServiceError (Wrapped e msg) = As_ServiceError e"
| "As_ServiceError (ErrorString msg) = None"
| "As_ServiceError Canceled = None"
| "As_ServiceError DeadlineExceeded = None"

fun IsNotExist :: "error option \<Rightarrow> bool" where
  "IsNotExist None = False"
| "IsNotExist (Some e) = (As_ServiceError e = Some 404)"

fun SafeDeref :: "'a \<Rightarrow> 'a option \<Rightarrow> 'a" where
  "SafeDeref zero None = zero"
| "SafeDeref zero (Some v) = v"

subsection \<open>Strings\<close>

definition HasPrefix :: "string \<Rightarrow> string \<Rightarrow> bool" where
  "HasPrefix s p = (length p \<le> length s \<and> take (length p) s = p)"

definition HasSuffix :: "string \<Rightarrow> string \<Rightarrow> bool" where
  "HasSuffix s p = (length p \<le> length s \<and> drop (length s - length p) s = p)"

definition TrimPrefix :: "string \<Rightarrow> string \<Rightarrow> string" where
  "TrimPrefix s p = (if HasPrefix s p then drop (length p) s else s)"

fun Index :: "string \<Rightarrow> string \<Rightarrow> nat option" where
  "Index [] sep = (if sep = [] then Some 0 else None)"
| "Index (c # cs) sep =
     (if HasPrefix (c # cs) sep then Some 0 else map_option Suc (Index cs sep))"

definition Cut :: "string \<Rightarrow> string \<Rightarrow> string \<times> string \<times> bool" where
  "Cut s sep =
     (case Index s sep of
        Some i \<Rightarrow> (take i s, drop (i + length sep) s, True)
      | None \<Rightarrow> (s, [], False))"

text \<open>
  \<^verbatim>\<open>strings.Split(s, sep)\<close> for a separator that is not empty, the only use the
  backend makes of it: the pieces between the occurrences of \<open>sep\<close>, never an empty
  slice. The pieces are cut off one byte at a time.
\<close>

fun split_pieces :: "string \<Rightarrow> string \<Rightarrow> nat \<Rightarrow> string \<Rightarrow> string list" where
  "split_pieces sep cur skip [] = [cur]"
| "split_pieces sep cur skip (c # cs) =
     (if 0 < skip then split_pieces sep cur (skip - 1) cs
      else if sep \<noteq> [] \<and> HasPrefix (c # cs) sep
        then cur # split_pieces sep [] (length sep - 1) cs
      else split_pieces sep (cur @ [c]) 0 cs)"

definition Split :: "string \<Rightarrow> string \<Rightarrow> string list" where
  "Split s sep = split_pieces sep [] 0 s"

text \<open>\<^verbatim>\<open>%d\<close> of \<^verbatim>\<open>fmt.Sprintf\<close>: a number in decimal, with a minus sign.\<close>

definition digit_char :: "nat \<Rightarrow> char" where
  "digit_char d = ''0123456789'' ! d"

function show_nat :: "nat \<Rightarrow> string" where
  "show_nat n = (if n < 10 then [digit_char n] else show_nat (n div 10) @ [digit_char (n mod 10)])"
  by pat_completeness auto
termination
  by (relation "measure (\<lambda>n. n)") auto

declare show_nat.simps [simp del]

definition show_int :: "int \<Rightarrow> string" where
  "show_int i = (if i < 0 then CHR ''-'' # show_nat (nat (- i)) else show_nat (nat i))"

definition show_int64 :: "int64 \<Rightarrow> string" where
  "show_int64 x = show_int (sint x)"

subsection \<open>\<^verbatim>\<open>path.Clean\<close> and \<^verbatim>\<open>path.Base\<close> of the standard library\<close>

text \<open>
  \<^verbatim>\<open>Clean\<close> reads the path from left to right and writes the cleaned path to a
  buffer; \<open>dotdot\<close> is the length of the buffer below which \<^verbatim>\<open>..\<close> must not remove
  anything. \<open>backtrack_to\<close> is its inner loop for a \<^verbatim>\<open>..\<close> element: the new length
  of the buffer.
\<close>

function backtrack_to :: "string \<Rightarrow> nat \<Rightarrow> nat \<Rightarrow> nat" where
  "backtrack_to out dotdot w =
     (if dotdot < w \<and> out ! w \<noteq> CHR ''/'' then backtrack_to out dotdot (w - 1) else w)"
  by pat_completeness auto
termination
  by (relation "measure (\<lambda>(out, dotdot, w). w)") auto

declare backtrack_to.simps [simp del]

function clean_loop :: "bool \<Rightarrow> string \<Rightarrow> string \<Rightarrow> nat \<Rightarrow> string" where
  "clean_loop rooted [] out dotdot = out"
| "clean_loop rooted (c # cs) out dotdot =
     (if c = CHR ''/'' then clean_loop rooted cs out dotdot
      else if c = CHR ''.'' \<and> (cs = [] \<or> hd cs = CHR ''/'')
        then clean_loop rooted cs out dotdot
      else if c = CHR ''.'' \<and> hd cs = CHR ''.'' \<and> (tl cs = [] \<or> hd (tl cs) = CHR ''/'')
        then (if dotdot < length out
                then clean_loop rooted (tl cs)
                       (take (backtrack_to out dotdot (length out - 1)) out) dotdot
              else if \<not> rooted
                then clean_loop rooted (tl cs)
                       ((if 0 < length out then out @ ''/'' else out) @ ''..'')
                       (length ((if 0 < length out then out @ ''/'' else out) @ ''..''))
              else clean_loop rooted (tl cs) out dotdot)
      else clean_loop rooted (dropWhile (\<lambda>x. x \<noteq> CHR ''/'') cs)
             ((if rooted \<and> length out \<noteq> 1 \<or> \<not> rooted \<and> length out \<noteq> 0
                 then out @ ''/'' else out) @ c # takeWhile (\<lambda>x. x \<noteq> CHR ''/'') cs)
             dotdot)"
  by pat_completeness auto
termination
proof (relation "measure (\<lambda>(rooted, rest, out, dotdot). length rest)")
  show "wf (measure (\<lambda>(rooted, rest, out, dotdot). length rest))"
    by simp
next
  fix rooted :: bool and c :: char and cs out :: string and dotdot :: nat
  show "((rooted, dropWhile (\<lambda>x. x \<noteq> CHR ''/'') cs,
          (if rooted \<and> length out \<noteq> 1 \<or> \<not> rooted \<and> length out \<noteq> 0
             then out @ ''/'' else out) @ c # takeWhile (\<lambda>x. x \<noteq> CHR ''/'') cs, dotdot),
         (rooted, c # cs, out, dotdot))
        \<in> measure (\<lambda>(rooted, rest, out, dotdot). length rest)"
    using length_dropWhile_le [of "\<lambda>x. x \<noteq> CHR ''/''" cs] by simp
qed (auto simp: less_Suc_eq_le intro: le_trans [OF diff_le_self])

declare clean_loop.simps [simp del]

definition Clean :: "string \<Rightarrow> string" where
  "Clean p =
     (if p = [] then ''.''
      else let rooted = (hd p = CHR ''/'');
               out = (if rooted then clean_loop True (tl p) ''/'' 1
                      else clean_loop False p [] 0)
           in if out = [] then ''.'' else out)"

function strip_slashes :: "string \<Rightarrow> string" where
  "strip_slashes p =
     (if p \<noteq> [] \<and> last p = CHR ''/'' then strip_slashes (butlast p) else p)"
  by pat_completeness auto
termination
  by (relation "measure length") auto

declare strip_slashes.simps [simp del]

text \<open>The part of \<open>p\<close> after its last slash, the whole of \<open>p\<close> when it has none.\<close>

definition after_last_slash :: "string \<Rightarrow> string" where
  "after_last_slash p = rev (takeWhile (\<lambda>x. x \<noteq> CHR ''/'') (rev p))"

definition Base :: "string \<Rightarrow> string" where
  "Base p =
     (if p = [] then ''.''
      else let q = after_last_slash (strip_slashes p)
           in if q = [] then ''/'' else q)"

section \<open>The range calculator\<close>

text \<open>
  \<^verbatim>\<open>getRange\<close> (oci.go, lines 497 to 522), its cases in the order of the source. It
  returns a string and an error; in the default case the string is \<^verbatim>\<open>bytes=-1\<close>
  and the error is not nil.
\<close>

definition getRange :: "int64 \<Rightarrow> int64 \<Rightarrow> string \<times> error option" where
  "getRange start end =
     (if start = 0 \<and> end <s 0 then (''bytes='' @ show_int64 end, None)
      else if 0 <s start \<and> end = 0 then (''bytes='' @ show_int64 start @ ''-'', None)
      else if 0 \<le>s start \<and> start \<le>s end
        then (''bytes='' @ show_int64 start @ ''-'' @ show_int64 end, None)
      else (''bytes=-1'',
            Some (ErrorString (''Invalid range specified: start='' @ show_int64 start
                               @ '' end='' @ show_int64 end))))"

section \<open>The configuration\<close>

record Config =
  Region :: string
  TenancyID :: string
  UserID :: string
  PrivateKeyFile :: string
  PrivateKey :: string
  Fingerprint :: string
  Passphrase :: string
  OCIAuthType :: string
  BucketName :: string
  Prefix :: string
  CompartmentOCID :: string
  Connections :: nat

text \<open>\<^verbatim>\<open>NewConfig\<close> and \<^verbatim>\<open>ParseConfig\<close> (config.go, lines 62 to 92).\<close>

definition NewConfig :: Config where
  "NewConfig =
     \<lparr>Region = [], TenancyID = [], UserID = [], PrivateKeyFile = [], PrivateKey = [],
      Fingerprint = [], Passphrase = [], OCIAuthType = [], BucketName = [], Prefix = [],
      CompartmentOCID = [], Connections = 5\<rparr>"

definition ParseConfig :: "string \<Rightarrow> error + Config" where
  "ParseConfig s =
     (if \<not> HasPrefix s ''oci:'' then Inl (ErrorString ''oci: invalid format'')
      else case Cut (drop 4 s) ''/'' of
        (bucketName, prefix, found) \<Rightarrow>
          Inr (NewConfig\<lparr>BucketName := bucketName,
                          Prefix := TrimPrefix (Clean prefix) ''/''\<rparr>))"

section \<open>The object store's client\<close>

text \<open>
  The client of the object store, the caller's context and the callback of
  \<^verbatim>\<open>List\<close> are not part of the backend. Each call the backend makes to them is
  written to a trace, and what a call answers may depend on everything that happened
  before it: the client's answers are functions of the trace up to and with the request,
  the context's error and the callback's result are functions of the trace before them.
\<close>

record FileInfo =
  Size :: int64
  Name :: string

datatype FileType = PackFile | KeyFile | LockFile | SnapshotFile | IndexFile | ConfigFile

datatype Handle = Handle FileType string

datatype ObjectSummary = ObjectSummary (SummaryName: "string option")

text \<open>
  The responses of the client, with the fields the backend reads. \<^verbatim>\<open>RawResponse\<close> is
  a pointer to the HTTP response and \<^verbatim>\<open>ContentLength\<close> a pointer to an
  \<^verbatim>\<open>int64\<close>; a call that fails before an HTTP response arrives returns a response
  with a nil \<^verbatim>\<open>RawResponse\<close>.
\<close>

record http_Response =
  StatusCode :: int

record sdk_response =
  RawResponse :: "http_Response option"

record HeadObjectResponse = sdk_response +
  ContentLength :: "int64 option"

record RewindReader =
  Length :: int64

datatype event =
    EvGetNamespace
  | EvUploadStream string string string
  | EvHeadObject string string string
  | EvGetObject string string string "string option"
  | EvDeleteObject string string string
  | EvCopyObject string string string string string string string
  | EvListObjects string string string
  | EvGetBucket string string
  | EvCreateBucket string string string
  | EvCtxErr
  | EvCallback FileInfo

type_synonym trace = "event list"

record client =
  GetNamespace :: "trace \<Rightarrow> error + string option"
  UploadStream :: "trace \<Rightarrow> error option"
  HeadObject :: "trace \<Rightarrow> error + HeadObjectResponse"
  GetObject :: "trace \<Rightarrow> error + string"
  DeleteObject :: "trace \<Rightarrow> error option"
  CopyObject :: "trace \<Rightarrow> error option"
  ListObjects :: "trace \<Rightarrow> error + ObjectSummary list"
  GetBucket :: "trace \<Rightarrow> sdk_response \<times> error option"
  CreateBucket :: "trace \<Rightarrow> error option"

type_synonym Context = "trace \<Rightarrow> error option"

type_synonym callback = "trace \<Rightarrow> FileInfo \<Rightarrow> error option"

text \<open>
  The backend: its configuration and its layout, which maps a handle to the key of its
  object and a file type to the directory of its objects.
\<close>

record Backend =
  cfg :: Config
  Filename :: "Handle \<Rightarrow> string"
  Basedir :: "FileType \<Rightarrow> string \<times> bool"

text \<open>A Go function returns, or panics on a nil pointer or an index out of range.\<close>

datatype 'a outcome = Returns 'a | Panics

section \<open>The operations of the backend\<close>

text \<open>
  \<^verbatim>\<open>getOCINamespace\<close> and \<^verbatim>\<open>deleteObject\<close> (oci.go, lines 463 to 485). Every
  operation but \<^verbatim>\<open>ensureBucketExists\<close> resolves the namespace again, and returns
  the error of the resolution when it fails.
\<close>

definition getOCINamespace :: "client \<Rightarrow> trace \<Rightarrow> (error + string) \<times> trace" where
  "getOCINamespace c tr =
     (let tr1 = tr @ [EvGetNamespace]
      in case GetNamespace c tr1 of
           Inl e \<Rightarrow> (Inl (Wrapped e ''unable to fetch namespace''), tr1)
         | Inr v \<Rightarrow> (Inr (SafeDeref [] v), tr1))"

definition deleteObject ::
  "client \<Rightarrow> string \<Rightarrow> string \<Rightarrow> string \<Rightarrow> trace \<Rightarrow> error option \<times> trace" where
  "deleteObject c namespace bucketname objectname tr =
     (let tr1 = tr @ [EvDeleteObject namespace bucketname objectname];
          err = DeleteObject c tr1
      in if err \<noteq> None then (err, tr1) else (None, tr1))"

text \<open>
  \<^verbatim>\<open>Save\<close> (oci.go, lines 180 to 219): the upload, and after an upload without error
  the lookup of the metadata and the comparison of the sizes. The \<^verbatim>\<open>err\<close> of the
  lookup is a variable of the inner block; the last line wraps the error of the upload.
\<close>

definition Save ::
  "Backend \<Rightarrow> client \<Rightarrow> Handle \<Rightarrow> RewindReader \<Rightarrow> trace \<Rightarrow> error option \<times> trace" where
  "Save be c h rd tr =
     (let objName = Filename be h
      in case getOCINamespace c tr of
           (Inl e, tr1) \<Rightarrow> (Some e, tr1)
         | (Inr ociNamespace, tr1) \<Rightarrow>
             let tr2 = tr1 @ [EvUploadStream ociNamespace (BucketName (cfg be)) objName];
                 err = UploadStream c tr2
             in if err = None
                then let tr3 = tr2 @ [EvHeadObject ociNamespace (BucketName (cfg be)) objName]
                     in case HeadObject c tr3 of
                          Inl e \<Rightarrow> (Wrap (Some e) ''client.fetch getResponse'', tr3)
                        | Inr getObjectDetails \<Rightarrow>
                            let size = SafeDeref 0 (ContentLength getObjectDetails)
                            in if size \<noteq> Length rd
                               then (Some (ErrorString
                                       (''wrote '' @ show_int64 size
                                        @ '' bytes instead of the expected ''
                                        @ show_int64 (Length rd) @ '' bytes'')), tr3)
                               else (Wrap err ''client.UploadStreamRequest'', tr3)
                else (Wrap err ''client.UploadStreamRequest'', tr2))"

text \<open>
  \<^verbatim>\<open>openReader\<close> (oci.go, lines 230 to 274), the reader that \<^verbatim>\<open>Load\<close> opens for
  each attempt. Go's \<^verbatim>\<open>int\<close> has at most 64 bits, so that \<^verbatim>\<open>int64(length)\<close> is the
  word \<open>len\<close> itself; \<^verbatim>\<open>offset+int64(length)-1\<close> wraps around.
\<close>

definition openReader ::
  "Backend \<Rightarrow> client \<Rightarrow> Handle \<Rightarrow> int64 \<Rightarrow> int64 \<Rightarrow> trace \<Rightarrow> (error + string) \<times> trace" where
  "openReader be c h len offset tr =
     (let objName = Filename be h
      in case (if 0 <s len then getRange offset (offset + len - 1)
               else if 0 <s offset then getRange offset 0
               else ([], None)) of
           (bytesRange, Some e) \<Rightarrow> (Inl e, tr)
         | (bytesRange, None) \<Rightarrow>
             (case getOCINamespace c tr of
                (Inl e, tr1) \<Rightarrow> (Inl e, tr1)
              | (Inr ociNamespace, tr1) \<Rightarrow>
                  let tr2 = tr1 @ [EvGetObject ociNamespace (BucketName (cfg be)) objName
                                     (if bytesRange = [] then None else Some bytesRange)]
                  in case GetObject c tr2 of
                       Inl e \<Rightarrow> (Inl e, tr2)
                     | Inr content \<Rightarrow> (Inr content, tr2)))"

text \<open>
  \<^verbatim>\<open>Stat\<close> (oci.go, lines 277 to 298). After a lookup without error it reads
  \<^verbatim>\<open>getObjectDetails.RawResponse.StatusCode\<close> through the pointer \<^verbatim>\<open>RawResponse\<close>;
  on status 404 it returns \<^verbatim>\<open>errors.Wrap(err, "File not found")\<close>, where \<^verbatim>\<open>err\<close>
  is the nil error of the lookup. The name is the last element of the key split at its
  slashes.
\<close>

definition Stat ::
  "Backend \<Rightarrow> client \<Rightarrow> Handle \<Rightarrow> trace \<Rightarrow> (FileInfo \<times> error option) outcome \<times> trace" where
  "Stat be c h tr =
     (let objName = Filename be h
      in case getOCINamespace c tr of
           (Inl e, tr1) \<Rightarrow> (Returns (\<lparr>Size = 0, Name = []\<rparr>, Some e), tr1)
         | (Inr ociNamespace, tr1) \<Rightarrow>
             let tr2 = tr1 @ [EvHeadObject ociNamespace (BucketName (cfg be)) objName]
             in case HeadObject c tr2 of
                  Inl e \<Rightarrow> (Returns (\<lparr>Size = 0, Name = []\<rparr>, Wrap (Some e) ''Stat''), tr2)
                | Inr getObjectDetails \<Rightarrow>
                    (case RawResponse getObjectDetails of
                       None \<Rightarrow> (Panics, tr2)
                     | Some raw \<Rightarrow>
                         if StatusCode raw = 404
                         then (Returns (\<lparr>Size = 0, Name = []\<rparr>, Wrap None ''File not found''), tr2)
                         else let objNameSlice = Split objName ''/''
                              in if objNameSlice = [] then (Panics, tr2)
                                 else (Returns
                                         (\<lparr>Size = SafeDeref 0 (ContentLength getObjectDetails),
                                           Name = objNameSlice ! (length objNameSlice - 1)\<rparr>,
                                          None), tr2)))"

text \<open>\<^verbatim>\<open>Remove\<close> (oci.go, lines 301 to 316).\<close>

definition Remove ::
  "Backend \<Rightarrow> client \<Rightarrow> Handle \<Rightarrow> trace \<Rightarrow> error option \<times> trace" where
  "Remove be c h tr =
     (let objName = Filename be h
      in case getOCINamespace c tr of
           (Inl e, tr1) \<Rightarrow> (Some e, tr1)
         | (Inr ociNamespace, tr1) \<Rightarrow>
             (case deleteObject c ociNamespace (BucketName (cfg be)) objName tr1 of
                (err, tr2) \<Rightarrow>
                  (Wrap (if IsNotExist err then None else err) ''client.RemoveObject'', tr2)))"

text \<open>
  \<^verbatim>\<open>List\<close> (oci.go, lines 320 to 379). Its context is derived from the caller's and
  is cancelled when the caller's is; \<^verbatim>\<open>ctx.Err()\<close> is read once at each check.
\<close>

text \<open>
  The loop of \<^verbatim>\<open>List\<close> over the listed objects, and the \<^verbatim>\<open>return ctx.Err()\<close>
  after it.
\<close>

fun list_loop ::
  "client \<Rightarrow> Context \<Rightarrow> callback \<Rightarrow> string \<Rightarrow> string \<Rightarrow> string \<Rightarrow> ObjectSummary list \<Rightarrow> trace
     \<Rightarrow> error option \<times> trace" where
  "list_loop c ctx fn ociNamespace bucket prefix [] tr = (ctx tr, tr @ [EvCtxErr])"
| "list_loop c ctx fn ociNamespace bucket prefix (obj # objs) tr =
     (let name = TrimPrefix (SafeDeref [] (SummaryName obj)) prefix
      in if name = [] then list_loop c ctx fn ociNamespace bucket prefix objs tr
         else let tr1 = tr @ [EvHeadObject ociNamespace bucket (SafeDeref [] (SummaryName obj))]
              in case HeadObject c tr1 of
                   Inl e \<Rightarrow> (Some e, tr1)
                 | Inr getObjectDetails \<Rightarrow>
                     let fi = \<lparr>Size = SafeDeref 0 (ContentLength getObjectDetails),
                               Name = Base name\<rparr>
                     in case ctx tr1 of
                          Some e \<Rightarrow> (Some e, tr1 @ [EvCtxErr])
                        | None \<Rightarrow>
                            (case fn (tr1 @ [EvCtxErr]) fi of
                               Some e \<Rightarrow> (Some e, tr1 @ [EvCtxErr, EvCallback fi])
                             | None \<Rightarrow>
                                 (case ctx (tr1 @ [EvCtxErr, EvCallback fi]) of
                                    Some e \<Rightarrow> (Some e, tr1 @ [EvCtxErr, EvCallback fi, EvCtxErr])
                                  | None \<Rightarrow>
                                      list_loop c ctx fn ociNamespace bucket prefix objs
                                        (tr1 @ [EvCtxErr, EvCallback fi, EvCtxErr]))))"

definition List ::
  "Backend \<Rightarrow> client \<Rightarrow> Context \<Rightarrow> FileType \<Rightarrow> callback \<Rightarrow> trace \<Rightarrow> error option \<times> trace" where
  "List be c ctx t fn tr =
     (let prefix0 = fst (Basedir be t);
          prefix = (if \<not> HasSuffix prefix0 ''/'' then prefix0 @ ''/'' else prefix0)
      in case getOCINamespace c tr of
           (Inl e, tr1) \<Rightarrow> (Some e, tr1)
         | (Inr ociNamespace, tr1) \<Rightarrow>
             let tr2 = tr1 @ [EvListObjects ociNamespace (BucketName (cfg be)) prefix]
             in case ListObjects c tr2 of
                  Inl e \<Rightarrow> (Some e, tr2)
                | Inr objects \<Rightarrow>
                    list_loop c ctx fn ociNamespace (BucketName (cfg be)) prefix objects tr2)"

text \<open>
  \<^verbatim>\<open>Rename\<close> (oci.go, lines 390 to 428); the new layout is given by its
  \<^verbatim>\<open>Filename\<close>.
\<close>

definition Rename ::
  "Backend \<Rightarrow> client \<Rightarrow> Handle \<Rightarrow> (Handle \<Rightarrow> string) \<Rightarrow> trace \<Rightarrow> error option \<times> trace" where
  "Rename be c h l tr =
     (let oldname = Filename be h; newname = l h
      in if oldname = newname then (None, tr)
         else case getOCINamespace c tr of
                (Inl e, tr1) \<Rightarrow> (Some e, tr1)
              | (Inr ociNamespace, tr1) \<Rightarrow>
                  let tr2 = tr1 @ [EvCopyObject ociNamespace (BucketName (cfg be)) oldname newname
                                     (BucketName (cfg be)) (Region (cfg be)) ociNamespace];
                      err = CopyObject c tr2
                  in if err \<noteq> None \<and> IsNotExist err then (None, tr2)
                     else if err \<noteq> None then (err, tr2)
                     else deleteObject c ociNamespace (BucketName (cfg be)) oldname tr2)"

text \<open>
  \<^verbatim>\<open>createBucket\<close> and \<^verbatim>\<open>ensureBucketExists\<close> (oci.go, lines 431 to 461). After a
  lookup of the bucket with an error, \<^verbatim>\<open>ensureBucketExists\<close> reads
  \<^verbatim>\<open>response.RawResponse.StatusCode\<close> through the pointer \<^verbatim>\<open>RawResponse\<close>.
\<close>

definition createBucket ::
  "client \<Rightarrow> string \<Rightarrow> string \<Rightarrow> string \<Rightarrow> trace \<Rightarrow> error option \<times> trace" where
  "createBucket c namespace name compartmentOCID tr =
     (let tr1 = tr @ [EvCreateBucket namespace name compartmentOCID];
          err = CreateBucket c tr1
      in if err \<noteq> None then (err, tr1) else (None, tr1))"

definition ensureBucketExists ::
  "client \<Rightarrow> string \<Rightarrow> string \<Rightarrow> string \<Rightarrow> trace \<Rightarrow> error option outcome \<times> trace" where
  "ensureBucketExists c namespace name compartmentOCID tr =
     (let tr1 = tr @ [EvGetBucket namespace name]
      in case GetBucket c tr1 of
           (response, err) \<Rightarrow>
             if err \<noteq> None
             then (case RawResponse response of
                     None \<Rightarrow> (Panics, tr1)
                   | Some raw \<Rightarrow>
                       if 404 = StatusCode raw
                       then (case createBucket c namespace name compartmentOCID tr1 of
                               (e, tr2) \<Rightarrow> (Returns e, tr2))
                       else (Returns None, tr1))
             else (Returns None, tr1))"

section \<open>An example backend and its clients\<close>

text \<open>
  A backend on the bucket \<^verbatim>\<open>bucket\<close> whose layout puts every object under
  \<^verbatim>\<open>data/\<close>, and a client whose every call succeeds: the namespace is \<^verbatim>\<open>ns\<close>,
  every object has three bytes, and the listing has one object.
\<close>

definition example_backend :: Backend where
  "example_backend =
     \<lparr>cfg = NewConfig\<lparr>Region := ''eu-frankfurt-1'', BucketName := ''bucket''\<rparr>,
      Filename = (\<lambda>h. case h of Handle t name \<Rightarrow> ''data/'' @ name),
      Basedir = (\<lambda>t. (''data'', True))\<rparr>"

definition example_client :: client where
  "example_client =
     \<lparr>GetNamespace = (\<lambda>tr. Inr (Some ''ns'')),
      UploadStream = (\<lambda>tr. None),
      HeadObject = (\<lambda>tr. Inr \<lparr>RawResponse = Some \<lparr>StatusCode = 200\<rparr>,
                                 ContentLength = Some 3\<rparr>),
      GetObject = (\<lambda>tr. Inr ''abc''),
      DeleteObject = (\<lambda>tr. None),
      CopyObject = (\<lambda>tr. None),
      ListObjects = (\<lambda>tr. Inr [ObjectSummary (Some ''data/abc'')]),
      GetBucket = (\<lambda>tr. (\<lparr>RawResponse = Some \<lparr>StatusCode = 200\<rparr>\<rparr>, None)),
      CreateBucket = (\<lambda>tr. None)\<rparr>"

text \<open>
  A client for which the object is missing: the metadata lookup fails with a service
  error of status 404. And a client whose bucket lookup fails before any HTTP response
  arrives, so that the response it returns has a nil \<^verbatim>\<open>RawResponse\<close>.
\<close>

definition missing_object_client :: client where
  "missing_object_client =
     example_client\<lparr>HeadObject := (\<lambda>tr. Inl (ServiceError 404 ''ObjectNotFound''))\<rparr>"

definition no_response_client :: client where
  "no_response_client =
     example_client\<lparr>GetBucket :=
       (\<lambda>tr. (\<lparr>RawResponse = None\<rparr>, Some (ErrorString ''connection refused'')))\<rparr>"

text \<open>A context that is cancelled once five calls have been made.\<close>

definition canceled_after_five :: Context where
  "canceled_after_five tr = (if 5 \<le> length tr then Some Canceled else None)"

text \<open>
  A context that is never cancelled, a callback that accepts every entry and one that
  refuses every entry, a client whose metadata lookup fails, a client for which the
  object to delete is already gone, and a layout that puts every object under
  \<^verbatim>\<open>new/\<close>.
\<close>

definition background :: Context where
  "background tr = None"

definition accept_callback :: callback where
  "accept_callback tr fi = None"

definition stop_callback :: callback where
  "stop_callback tr fi = Some (ErrorString ''stop'')"

definition no_metadata_client :: client where
  "no_metadata_client =
     example_client\<lparr>HeadObject := (\<lambda>tr. Inl (ErrorString ''timeout''))\<rparr>"

definition gone_client :: client where
  "gone_client =
     example_client\<lparr>DeleteObject := (\<lambda>tr. Some (ServiceError 404 ''ObjectNotFound''))\<rparr>"

definition new_layout :: "Handle \<Rightarrow> string" where
  "new_layout h = (case h of Handle t name \<Rightarrow> ''new/'' @ name)"

section \<open>What every event of a listing satisfies\<close>

text \<open>
  \<open>event_ok\<close> looks at one event of a run of \<^verbatim>\<open>List\<close> that returned \<open>res\<close>,
  with the events before it and the events after it. A callback comes right after a
  check of the context that found no error; when the callback returns an error the run
  ends there with that error, and otherwise a check of the context follows. A check
  that finds an error ends the run with that error, and so does a metadata lookup that
  fails. \<open>events_ok\<close> says so of every event of a trace.
\<close>

definition event_ok ::
  "client \<Rightarrow> Context \<Rightarrow> callback \<Rightarrow> error option \<Rightarrow> trace \<Rightarrow> event \<Rightarrow> trace \<Rightarrow> bool" where
  "event_ok c ctx fn res before ev after =
     (case ev of
        EvCallback fi \<Rightarrow>
          before \<noteq> [] \<and> last before = EvCtxErr \<and> ctx (butlast before) = None
          \<and> (case fn before fi of
                Some e \<Rightarrow> after = [] \<and> res = Some e
              | None \<Rightarrow> after \<noteq> [] \<and> hd after = EvCtxErr)
      | EvCtxErr \<Rightarrow>
          (case ctx before of Some e \<Rightarrow> after = [] \<and> res = Some e | None \<Rightarrow> True)
      | EvHeadObject ns b k \<Rightarrow>
          (case HeadObject c (before @ [ev]) of
             Inl e \<Rightarrow> after = [] \<and> res = Some e
           | Inr r \<Rightarrow> True)
      | _ \<Rightarrow> True)"

fun events_ok ::
  "client \<Rightarrow> Context \<Rightarrow> callback \<Rightarrow> error option \<Rightarrow> trace \<Rightarrow> trace \<Rightarrow> bool" where
  "events_ok c ctx fn res before [] = True"
| "events_ok c ctx fn res before (ev # evs) =
     (event_ok c ctx fn res before ev evs \<and> events_ok c ctx fn res (before @ [ev]) evs)"

section \<open>The range calculator: its four cases\<close>

lemma sint_eq_0: "(sint (x::int64) = 0) = (x = 0)"
  by (metis signed_eq_0_iff)

lemmas show_eval = show_int64_def show_int_def show_nat.simps digit_char_def

lemmas getRange_eval = getRange_def show_eval word_sless_alt word_sle_eq

text \<open>
  C3. For every pair of 64-bit integers, read in two's complement, \<^verbatim>\<open>getRange\<close>
  returns \<^verbatim>\<open>bytes=<end>\<close> when start is 0 and end is negative, \<^verbatim>\<open>bytes=<start>-\<close>
  when start is positive and end is 0, \<^verbatim>\<open>bytes=<start>-<end>\<close> when
  0 \<le> start \<le> end, each with a nil error, and an invalid-range error in every other
  case. The four examples of the specification evaluate as it says.
\<close>

theorem getRange_cases:
  "getRange s e =
     (if sint s = 0 \<and> sint e < 0 then (''bytes='' @ show_int (sint e), None)
      else if 0 < sint s \<and> sint e = 0 then (''bytes='' @ show_int (sint s) @ ''-'', None)
      else if 0 \<le> sint s \<and> sint s \<le> sint e
        then (''bytes='' @ show_int (sint s) @ ''-'' @ show_int (sint e), None)
      else (''bytes=-1'',
            Some (ErrorString (''Invalid range specified: start='' @ show_int (sint s)
                               @ '' end='' @ show_int (sint e)))))
   \<and> getRange 0 (- 100) = (''bytes=-100'', None)
   \<and> getRange 50 0 = (''bytes=50-'', None)
   \<and> getRange 10 20 = (''bytes=10-20'', None)
   \<and> getRange 20 10
       = (''bytes=-1'', Some (ErrorString ''Invalid range specified: start=20 end=10''))"
proof (intro conjI)
  show "getRange s e =
     (if sint s = 0 \<and> sint e < 0 then (''bytes='' @ show_int (sint e), None)
      else if 0 < sint s \<and> sint e = 0 then (''bytes='' @ show_int (sint s) @ ''-'', None)
      else if 0 \<le> sint s \<and> sint s \<le> sint e
        then (''bytes='' @ show_int (sint s) @ ''-'' @ show_int (sint e), None)
      else (''bytes=-1'',
            Some (ErrorString (''Invalid range specified: start='' @ show_int (sint s)
                               @ '' end='' @ show_int (sint e)))))"
    by (simp add: getRange_def show_int64_def word_sless_alt word_sle_eq sint_eq_0)
  show "getRange 0 (- 100) = (''bytes=-100'', None)"
    by (simp add: getRange_eval)
  show "getRange 50 0 = (''bytes=50-'', None)"
    by (simp add: getRange_eval)
  show "getRange 10 20 = (''bytes=10-20'', None)"
    by (simp add: getRange_eval)
  show "getRange 20 10
       = (''bytes=-1'', Some (ErrorString ''Invalid range specified: start=20 end=10''))"
    by (simp add: getRange_eval)
qed

section \<open>The connection string\<close>

lemma HasPrefix_slash: "HasPrefix (c # cs) ''/'' = (c = CHR ''/'')"
  by (simp add: HasPrefix_def)

lemma Index_slash:
  "Index s ''/'' =
     (if CHR ''/'' \<in> set s then Some (length (takeWhile (\<lambda>c. c \<noteq> CHR ''/'') s)) else None)"
  by (induction s) (auto simp: HasPrefix_slash)

lemma Cut_slash:
  "Cut s ''/'' =
     (takeWhile (\<lambda>c. c \<noteq> CHR ''/'') s, drop 1 (dropWhile (\<lambda>c. c \<noteq> CHR ''/'') s),
      CHR ''/'' \<in> set s)"
proof (cases "CHR ''/'' \<in> set s")
  case True
  let ?n = "length (takeWhile (\<lambda>c. c \<noteq> CHR ''/'') s)"
  have t: "take ?n s = takeWhile (\<lambda>c. c \<noteq> CHR ''/'') s"
    by (induction s) auto
  have d: "drop ?n s = dropWhile (\<lambda>c. c \<noteq> CHR ''/'') s"
    by (induction s) auto
  have "drop (?n + length ''/'') s = drop 1 (drop ?n s)"
    by (simp add: add.commute)
  with t d True show ?thesis
    by (simp only: Cut_def Index_slash if_True option.case)
next
  case False
  then have all: "\<forall>x\<in>set s. x \<noteq> CHR ''/''"
    by auto
  have tw: "takeWhile (\<lambda>c. c \<noteq> CHR ''/'') s = s"
    using all by (simp add: takeWhile_eq_all_conv)
  have dw: "dropWhile (\<lambda>c. c \<noteq> CHR ''/'') s = []"
    using all by simp
  show ?thesis
    unfolding Cut_def Index_slash tw dw using False by simp
qed

text \<open>
  C8. \<^verbatim>\<open>ParseConfig\<close> accepts exactly the strings that start with the scheme
  \<^verbatim>\<open>oci:\<close>. The bucket name is what follows the scheme up to the first slash, the
  prefix is \<^verbatim>\<open>path.Clean\<close> of what follows that slash with one leading slash
  removed, and a remainder that is absent or empty gives the prefix \<^verbatim>\<open>.\<close>. With
  \<^verbatim>\<open>oci\<close> for the scheme, the three examples of the specification evaluate as it
  says, and a string without the scheme is rejected with an error. The four strings of
  \<^verbatim>\<open>configTests\<close> (config_test.go) parse to the configurations that the test
  expects, a trailing slash of the prefix removed. In a remainder that is rooted and not
  clean, doubled slashes, \<^verbatim>\<open>.\<close> and \<^verbatim>\<open>..\<close> elements and the slashes at both
  ends are removed: \<^verbatim>\<open>oci:b//x/../y/./z/\<close> gives the prefix \<^verbatim>\<open>y/z\<close>, and
  \<^verbatim>\<open>oci:b//\<close> gives the empty prefix, the root with its slash removed.
\<close>

theorem ParseConfig_bucket_and_prefix:
  "ParseConfig s =
     (if HasPrefix s ''oci:''
      then Inr (NewConfig\<lparr>BucketName := takeWhile (\<lambda>c. c \<noteq> CHR ''/'') (drop 4 s),
                 Prefix := TrimPrefix (Clean (drop 1 (dropWhile (\<lambda>c. c \<noteq> CHR ''/'') (drop 4 s)))) ''/''\<rparr>)
      else Inl (ErrorString ''oci: invalid format''))
   \<and> (HasPrefix s ''oci:'' \<and> drop 1 (dropWhile (\<lambda>c. c \<noteq> CHR ''/'') (drop 4 s)) = []
        \<longrightarrow> map_sum id Prefix (ParseConfig s) = Inr ''.'')
   \<and> map_sum id (\<lambda>cfg. (BucketName cfg, Prefix cfg)) (ParseConfig ''oci:mybucket/logs/2024'')
        = Inr (''mybucket'', ''logs/2024'')
   \<and> map_sum id (\<lambda>cfg. (BucketName cfg, Prefix cfg)) (ParseConfig ''oci:mybucket'')
        = Inr (''mybucket'', ''.'')
   \<and> map_sum id (\<lambda>cfg. (BucketName cfg, Prefix cfg)) (ParseConfig ''oci:mybucket/'')
        = Inr (''mybucket'', ''.'')
   \<and> ParseConfig ''mybucket/logs/2024'' = Inl (ErrorString ''oci: invalid format'')
   \<and> ParseConfig ''oci:ocitest''
        = Inr (NewConfig\<lparr>BucketName := ''ocitest'', Prefix := ''.''\<rparr>)
   \<and> ParseConfig ''oci:ocitest/''
        = Inr (NewConfig\<lparr>BucketName := ''ocitest'', Prefix := ''.''\<rparr>)
   \<and> ParseConfig ''oci:ocitest/prefix/directory''
        = Inr (NewConfig\<lparr>BucketName := ''ocitest'', Prefix := ''prefix/directory''\<rparr>)
   \<and> ParseConfig ''oci:ocitest/prefix/directory/''
        = Inr (NewConfig\<lparr>BucketName := ''ocitest'', Prefix := ''prefix/directory''\<rparr>)
   \<and> ParseConfig ''oci:b//x/../y/./z/''
        = Inr (NewConfig\<lparr>BucketName := ''b'', Prefix := ''y/z''\<rparr>)
   \<and> ParseConfig ''oci:b/logs//2024/../2025/''
        = Inr (NewConfig\<lparr>BucketName := ''b'', Prefix := ''logs/2025''\<rparr>)
   \<and> ParseConfig ''oci:b//''
        = Inr (NewConfig\<lparr>BucketName := ''b'', Prefix := []\<rparr>)"
proof -
  have gen: "ParseConfig s =
     (if HasPrefix s ''oci:''
      then Inr (NewConfig\<lparr>BucketName := takeWhile (\<lambda>c. c \<noteq> CHR ''/'') (drop 4 s),
                 Prefix := TrimPrefix (Clean (drop 1 (dropWhile (\<lambda>c. c \<noteq> CHR ''/'') (drop 4 s)))) ''/''\<rparr>)
      else Inl (ErrorString ''oci: invalid format''))" for s
    by (simp add: ParseConfig_def Cut_slash)
  have clean_nil: "TrimPrefix (Clean []) ''/'' = ''.''"
    by (simp add: Clean_def TrimPrefix_def HasPrefix_def)
  have e1: "TrimPrefix (Clean ''logs/2024'') ''/'' = ''logs/2024''"
    by (simp add: Clean_def clean_loop.simps TrimPrefix_def HasPrefix_def)
  have e2: "TrimPrefix (Clean ''prefix/directory'') ''/'' = ''prefix/directory''"
    by (simp add: Clean_def clean_loop.simps TrimPrefix_def HasPrefix_def)
  have e3: "TrimPrefix (Clean ''prefix/directory/'') ''/'' = ''prefix/directory''"
    by (simp add: Clean_def clean_loop.simps TrimPrefix_def HasPrefix_def)
  have e4: "TrimPrefix (Clean ''/x/../y/./z/'') ''/'' = ''y/z''"
    by (simp add: Clean_def clean_loop.simps backtrack_to.simps TrimPrefix_def HasPrefix_def)
  have e5: "TrimPrefix (Clean ''logs//2024/../2025/'') ''/'' = ''logs/2025''"
    by (simp add: Clean_def clean_loop.simps backtrack_to.simps TrimPrefix_def HasPrefix_def)
  have e6: "TrimPrefix (Clean ''/'') ''/'' = []"
    by (simp add: Clean_def clean_loop.simps TrimPrefix_def HasPrefix_def)
  show ?thesis
  proof (intro conjI impI)
    show "ParseConfig s =
     (if HasPrefix s ''oci:''
      then Inr (NewConfig\<lparr>BucketName := takeWhile (\<lambda>c. c \<noteq> CHR ''/'') (drop 4 s),
                 Prefix := TrimPrefix (Clean (drop 1 (dropWhile (\<lambda>c. c \<noteq> CHR ''/'') (drop 4 s)))) ''/''\<rparr>)
      else Inl (ErrorString ''oci: invalid format''))"
      by (rule gen)
    show "map_sum id Prefix (ParseConfig s) = Inr ''.''"
      if "HasPrefix s ''oci:'' \<and> drop 1 (dropWhile (\<lambda>c. c \<noteq> CHR ''/'') (drop 4 s)) = []"
      using that by (simp add: gen clean_nil)
  qed (simp_all add: gen HasPrefix_def clean_nil e1 e2 e3 e4 e5 e6)
qed

theorem ParseConfig_bucket_and_prefix_witness:
  "HasPrefix ''oci:mybucket'' ''oci:''
   \<and> drop 1 (dropWhile (\<lambda>c. c \<noteq> CHR ''/'') (drop 4 ''oci:mybucket'')) = []
   \<and> map_sum id Prefix (ParseConfig ''oci:mybucket'') = Inr ''.''"
proof -
  have h1: "HasPrefix ''oci:mybucket'' ''oci:''"
    by (simp add: HasPrefix_def)
  have h2: "drop 1 (dropWhile (\<lambda>c. c \<noteq> CHR ''/'') (drop 4 ''oci:mybucket'')) = []"
    by simp
  from ParseConfig_bucket_and_prefix [of "''oci:mybucket''"] h1 h2
  have "map_sum id Prefix (ParseConfig ''oci:mybucket'') = Inr ''.''"
    by blast
  with h1 h2 show ?thesis
    by blast
qed

section \<open>Calls that every operation starts with\<close>

lemmas example_eval = example_backend_def example_client_def NewConfig_def

lemmas List_eval = List_def getOCINamespace_def example_eval Let_def HasSuffix_def
  TrimPrefix_def HasPrefix_def Base_def strip_slashes.simps after_last_slash_def

lemma getOCINamespace_ok:
  "GetNamespace c (tr @ [EvGetNamespace]) = Inr v \<Longrightarrow>
   getOCINamespace c tr = (Inr (SafeDeref [] v), tr @ [EvGetNamespace])"
  by (simp add: getOCINamespace_def)

lemma getOCINamespace_fails:
  "GetNamespace c (tr @ [EvGetNamespace]) = Inl e \<Longrightarrow>
   getOCINamespace c tr = (Inl (Wrapped e ''unable to fetch namespace''), tr @ [EvGetNamespace])"
  by (simp add: getOCINamespace_def)

section \<open>Save: the check after the upload\<close>

text \<open>
  C1. When \<^verbatim>\<open>Save\<close> has resolved the namespace and the upload it issues reports
  success, it asks for the metadata of the object under the key of the handle, and that
  is its last call. It returns the lookup's error when the lookup fails, a size-mismatch
  error naming both sizes when the reported content length (0 when none is reported)
  differs from the length of the reader, and nil otherwise: it returns nil exactly when
  the lookup succeeds and the two sizes are equal.
\<close>

theorem Save_sanity_check:
  assumes ns: "GetNamespace c (tr @ [EvGetNamespace]) = Inr v"
    and up: "UploadStream c (tr @ [EvGetNamespace,
               EvUploadStream (SafeDeref [] v) (BucketName (cfg be)) (Filename be h)]) = None"
  shows "Save be c h rd tr =
     (case HeadObject c (tr @ [EvGetNamespace,
               EvUploadStream (SafeDeref [] v) (BucketName (cfg be)) (Filename be h),
               EvHeadObject (SafeDeref [] v) (BucketName (cfg be)) (Filename be h)]) of
        Inl e \<Rightarrow> Some (Wrapped e ''client.fetch getResponse'')
      | Inr r \<Rightarrow>
          if SafeDeref 0 (ContentLength r) \<noteq> Length rd
          then Some (ErrorString (''wrote '' @ show_int64 (SafeDeref 0 (ContentLength r))
                       @ '' bytes instead of the expected '' @ show_int64 (Length rd)
                       @ '' bytes''))
          else None,
      tr @ [EvGetNamespace,
            EvUploadStream (SafeDeref [] v) (BucketName (cfg be)) (Filename be h),
            EvHeadObject (SafeDeref [] v) (BucketName (cfg be)) (Filename be h)])
   \<and> (fst (Save be c h rd tr) = None
        \<longleftrightarrow> (\<exists>r. HeadObject c (tr @ [EvGetNamespace,
               EvUploadStream (SafeDeref [] v) (BucketName (cfg be)) (Filename be h),
               EvHeadObject (SafeDeref [] v) (BucketName (cfg be)) (Filename be h)]) = Inr r
               \<and> SafeDeref 0 (ContentLength r) = Length rd))"
  using up by (auto simp: Save_def getOCINamespace_ok [OF ns] Let_def split: sum.splits)

text \<open>
  The example backend uploads a reader of five bytes; the store then reports three
  bytes, and \<^verbatim>\<open>Save\<close> fails with the size mismatch.
\<close>

theorem Save_sanity_check_witness:
  "GetNamespace example_client ([] @ [EvGetNamespace]) = Inr (Some ''ns'')
   \<and> UploadStream example_client
        ([] @ [EvGetNamespace, EvUploadStream ''ns'' ''bucket'' ''data/abc'']) = None
   \<and> Save example_backend example_client (Handle PackFile ''abc'') \<lparr>Length = 5\<rparr> []
       = (Some (ErrorString ''wrote 3 bytes instead of the expected 5 bytes''),
          [EvGetNamespace, EvUploadStream ''ns'' ''bucket'' ''data/abc'',
           EvHeadObject ''ns'' ''bucket'' ''data/abc''])"
proof -
  have ns: "GetNamespace example_client ([] @ [EvGetNamespace]) = Inr (Some ''ns'')"
    by (simp add: example_eval)
  have up: "UploadStream example_client
              ([] @ [EvGetNamespace,
                     EvUploadStream (SafeDeref [] (Some ''ns'')) (BucketName (cfg example_backend))
                       (Filename example_backend (Handle PackFile ''abc''))]) = None"
    by (simp add: example_eval)
  from Save_sanity_check [OF ns up, of "\<lparr>Length = 5\<rparr>"] ns show ?thesis
    by (simp add: example_eval show_eval)
qed

section \<open>Load: the range that the reader requests\<close>

lemma sint_closed_end:
  fixes offset len :: int64
  shows "sint (offset + len - 1) = signed_take_bit 63 (sint offset + sint len - 1)"
proof -
  have "offset + len - 1 = word_of_int (sint offset + sint len - 1)"
    by simp
  then show ?thesis
    by (simp only: sint_sbintrunc') simp
qed

lemma closed_range_end:
  fixes offset len :: int64
  assumes len: "0 < sint len" and off: "0 \<le> sint offset"
  shows "sint offset + sint len - 1 < 2 ^ 63 \<Longrightarrow>
           sint (offset + len - 1) = sint offset + sint len - 1"
    and "2 ^ 63 \<le> sint offset + sint len - 1 \<Longrightarrow> sint (offset + len - 1) < 0"
proof -
  have bo: "sint offset < 2 ^ 63" and bl: "sint len < 2 ^ 63"
    using sint_lt [of offset] sint_lt [of len] by simp_all
  show "sint (offset + len - 1) = sint offset + sint len - 1"
    if "sint offset + sint len - 1 < 2 ^ 63"
    unfolding sint_closed_end
    using that len off by (intro signed_take_bit_int_eq_self) simp_all
  show "sint (offset + len - 1) < 0" if "2 ^ 63 \<le> sint offset + sint len - 1"
  proof -
    have "signed_take_bit 63 (sint offset + sint len - 1)
            \<le> sint offset + sint len - 1 - 2 ^ Suc 63"
      using that by (rule signed_take_bit_int_less_eq)
    moreover have "(2::int) ^ Suc 63 = 18446744073709551616" "(2::int) ^ 63 = 9223372036854775808"
      by simp_all
    ultimately show ?thesis
      unfolding sint_closed_end using bo bl by linarith
  qed
qed

lemma closed_range_accepted:
  fixes offset len :: int64
  assumes len: "0 < sint len"
  shows "snd (getRange offset (offset + len - 1)) = None
           \<longleftrightarrow> 0 \<le> sint offset \<and> sint offset + sint len - 1 < 2 ^ 63"
proof (cases "0 \<le> sint offset")
  case False
  then show ?thesis
    by (simp add: getRange_def word_sless_alt word_sle_eq flip: sint_eq_0)
next
  case True
  show ?thesis
  proof (cases "sint offset + sint len - 1 < 2 ^ 63")
    case fits: True
    have e: "sint (offset + len - 1) = sint offset + sint len - 1"
      using closed_range_end(1) [OF len True fits] .
    have "sint offset \<le> sint (offset + len - 1)"
      using len by (simp add: e)
    with True fits show ?thesis
      by (simp add: getRange_def word_sless_alt word_sle_eq)
  next
    case False
    then have neg: "sint (offset + len - 1) < 0"
      using closed_range_end(2) [OF len True] by simp
    then have "offset + len - 1 \<noteq> 0"
      by auto
    moreover have "sint len < 2 ^ 63"
      using sint_lt [of len] by simp
    ultimately show ?thesis
      using neg True False len
      by (auto simp: getRange_def word_sless_alt word_sle_eq simp flip: sint_eq_0)
  qed
qed

lemma closed_range_string:
  fixes offset len :: int64
  assumes len: "0 < sint len" and ok: "snd (getRange offset (offset + len - 1)) = None"
  shows "fst (getRange offset (offset + len - 1))
           = ''bytes='' @ show_int (sint offset) @ ''-'' @ show_int (sint offset + sint len - 1)"
proof -
  from ok have off: "0 \<le> sint offset" and fits: "sint offset + sint len - 1 < 2 ^ 63"
    by (simp_all add: closed_range_accepted [OF len])
  have e: "sint (offset + len - 1) = sint offset + sint len - 1"
    using closed_range_end(1) [OF len off fits] .
  have ne: "offset + len - 1 \<noteq> 0" if "0 < sint offset"
  proof
    assume "offset + len - 1 = 0"
    then have "sint (offset + len - 1) = 0" by simp
    with e that len show False by simp
  qed
  show ?thesis
    using off len e ne
    by (auto simp: getRange_def show_int64_def word_sless_alt word_sle_eq simp flip: sint_eq_0)
qed

lemma open_range_from_offset:
  fixes offset :: int64
  assumes "0 < sint offset"
  shows "getRange offset 0 = (''bytes='' @ show_int (sint offset) @ ''-'', None)"
  using assms by (auto simp: getRange_def show_int64_def word_sless_alt word_sle_eq simp flip: sint_eq_0)


lemma openReader_accepted:
  assumes "(if 0 <s len then getRange offset (offset + len - 1)
            else if 0 <s offset then getRange offset 0 else ([], None)) = (bytesRange, None)"
  shows "openReader be c h len offset tr =
     (case GetNamespace c (tr @ [EvGetNamespace]) of
        Inl e \<Rightarrow> (Inl (Wrapped e ''unable to fetch namespace''), tr @ [EvGetNamespace])
      | Inr v \<Rightarrow>
          (case GetObject c (tr @ [EvGetNamespace,
                  EvGetObject (SafeDeref [] v) (BucketName (cfg be)) (Filename be h)
                    (if bytesRange = [] then None else Some bytesRange)]) of
             Inl e \<Rightarrow> Inl e | Inr content \<Rightarrow> Inr content,
           tr @ [EvGetNamespace,
                 EvGetObject (SafeDeref [] v) (BucketName (cfg be)) (Filename be h)
                   (if bytesRange = [] then None else Some bytesRange)]))"
  using assms
  by (simp add: openReader_def getOCINamespace_def Let_def split: sum.splits)

lemma openReader_rejected:
  assumes "(if 0 <s len then getRange offset (offset + len - 1)
            else if 0 <s offset then getRange offset 0 else ([], None)) = (bytesRange, Some e)"
  shows "openReader be c h len offset tr = (Inl e, tr)"
  using assms by (simp add: openReader_def)

lemma range_of_request:
  fixes len offset :: int64
  assumes "0 < sint len \<longrightarrow> 0 \<le> sint offset \<and> sint offset + sint len - 1 < 2 ^ 63"
  shows "(if 0 <s len then getRange offset (offset + len - 1)
          else if 0 <s offset then getRange offset 0 else ([], None))
       = (if 0 < sint len
            then ''bytes='' @ show_int (sint offset) @ ''-''
                   @ show_int (sint offset + sint len - 1)
          else if 0 < sint offset then ''bytes='' @ show_int (sint offset) @ ''-''
          else [], None)"
proof (cases "0 < sint len")
  case True
  with assms have ok: "snd (getRange offset (offset + len - 1)) = None"
    by (simp add: closed_range_accepted)
  from closed_range_string [OF True ok] ok True show ?thesis
    by (simp add: word_sless_alt prod_eq_iff)
next
  case False
  then show ?thesis
    by (simp add: word_sless_alt open_range_from_offset)
qed

lemma range_rejected:
  fixes len offset :: int64
  assumes "0 < sint len" and "\<not> (0 \<le> sint offset \<and> sint offset + sint len - 1 < 2 ^ 63)"
  shows "(if 0 <s len then getRange offset (offset + len - 1)
          else if 0 <s offset then getRange offset 0 else ([], None))
       = (''bytes=-1'',
          Some (ErrorString (''Invalid range specified: start='' @ show_int (sint offset)
                  @ '' end='' @ show_int (sint (offset + len - 1)))))"
proof -
  from assms have "snd (getRange offset (offset + len - 1)) \<noteq> None"
    by (simp add: closed_range_accepted)
  then have "getRange offset (offset + len - 1)
       = (''bytes=-1'',
          Some (ErrorString (''Invalid range specified: start='' @ show_int64 offset
                  @ '' end='' @ show_int64 (offset + len - 1))))"
    unfolding getRange_def by (auto split: if_splits)
  with assms(1) show ?thesis
    by (simp add: word_sless_alt show_int64_def)
qed

text \<open>
  C4. Every get-object request that \<^verbatim>\<open>openReader\<close> issues is for the key of the
  handle and carries the closed range from offset to offset + length - 1 when length is
  positive, the open range from offset when length is not positive and offset is, and no
  range otherwise; once the namespace is resolved the request is issued, unless the
  range calculator rejects the range. It rejects a positive length exactly when offset
  is negative or offset + length - 1 is beyond the largest 64-bit integer, and whenever
  it rejects, \<^verbatim>\<open>openReader\<close> returns its error without any call at all.
\<close>

theorem openReader_range:
  fixes len offset :: int64
  shows
  "(\<exists>evs. snd (openReader be c h len offset tr) = tr @ evs
      \<and> (\<forall>ns b k r. EvGetObject ns b k r \<in> set evs \<longrightarrow>
            k = Filename be h
            \<and> r = (if 0 < sint len
                     then Some (''bytes='' @ show_int (sint offset) @ ''-''
                                @ show_int (sint offset + sint len - 1))
                   else if 0 < sint offset
                     then Some (''bytes='' @ show_int (sint offset) @ ''-'')
                   else None)))
   \<and> (GetNamespace c (tr @ [EvGetNamespace]) = Inr v
        \<and> (0 < sint len \<longrightarrow> 0 \<le> sint offset \<and> sint offset + sint len - 1 < 2 ^ 63) \<longrightarrow>
        snd (openReader be c h len offset tr)
          = tr @ [EvGetNamespace,
                  EvGetObject (SafeDeref [] v) (BucketName (cfg be)) (Filename be h)
                    (if 0 < sint len
                       then Some (''bytes='' @ show_int (sint offset) @ ''-''
                                  @ show_int (sint offset + sint len - 1))
                     else if 0 < sint offset
                       then Some (''bytes='' @ show_int (sint offset) @ ''-'')
                     else None)])
   \<and> (0 < sint len \<and> \<not> (0 \<le> sint offset \<and> sint offset + sint len - 1 < 2 ^ 63) \<longrightarrow>
        openReader be c h len offset tr
          = (Inl (ErrorString (''Invalid range specified: start='' @ show_int (sint offset)
                     @ '' end='' @ show_int (sint (offset + len - 1)))), tr))
   \<and> (\<forall>e. (0 < sint len \<and> snd (getRange offset (offset + len - 1)) = Some e
            \<or> sint len \<le> 0 \<and> 0 < sint offset \<and> snd (getRange offset 0) = Some e) \<longrightarrow>
          openReader be c h len offset tr = (Inl e, tr))"
proof (intro conjI impI allI)
  show "\<exists>evs. snd (openReader be c h len offset tr) = tr @ evs
      \<and> (\<forall>ns b k r. EvGetObject ns b k r \<in> set evs \<longrightarrow>
            k = Filename be h
            \<and> r = (if 0 < sint len
                     then Some (''bytes='' @ show_int (sint offset) @ ''-''
                                @ show_int (sint offset + sint len - 1))
                   else if 0 < sint offset
                     then Some (''bytes='' @ show_int (sint offset) @ ''-'')
                   else None))"
  proof (cases "0 < sint len \<longrightarrow> 0 \<le> sint offset \<and> sint offset + sint len - 1 < 2 ^ 63")
    case True
    show ?thesis
      unfolding openReader_accepted [OF range_of_request [OF True]]
      by (cases "GetNamespace c (tr @ [EvGetNamespace])") auto
  next
    case False
    then have "0 < sint len" "\<not> (0 \<le> sint offset \<and> sint offset + sint len - 1 < 2 ^ 63)"
      by auto
    from openReader_rejected [OF range_rejected [OF this]] show ?thesis
      by simp
  qed
next
  assume a: "GetNamespace c (tr @ [EvGetNamespace]) = Inr v
        \<and> (0 < sint len \<longrightarrow> 0 \<le> sint offset \<and> sint offset + sint len - 1 < 2 ^ 63)"
  then have acc: "0 < sint len \<longrightarrow> 0 \<le> sint offset \<and> sint offset + sint len - 1 < 2 ^ 63"
    by simp
  show "snd (openReader be c h len offset tr)
          = tr @ [EvGetNamespace,
                  EvGetObject (SafeDeref [] v) (BucketName (cfg be)) (Filename be h)
                    (if 0 < sint len
                       then Some (''bytes='' @ show_int (sint offset) @ ''-''
                                  @ show_int (sint offset + sint len - 1))
                     else if 0 < sint offset
                       then Some (''bytes='' @ show_int (sint offset) @ ''-'')
                     else None)]"
    unfolding openReader_accepted [OF range_of_request [OF acc]]
    using a by simp
next
  assume "0 < sint len \<and> \<not> (0 \<le> sint offset \<and> sint offset + sint len - 1 < 2 ^ 63)"
  then have "0 < sint len" "\<not> (0 \<le> sint offset \<and> sint offset + sint len - 1 < 2 ^ 63)"
    by auto
  from openReader_rejected [OF range_rejected [OF this]]
  show "openReader be c h len offset tr
          = (Inl (ErrorString (''Invalid range specified: start='' @ show_int (sint offset)
                     @ '' end='' @ show_int (sint (offset + len - 1)))), tr)" .
next
  fix e
  assume "0 < sint len \<and> snd (getRange offset (offset + len - 1)) = Some e
            \<or> sint len \<le> 0 \<and> 0 < sint offset \<and> snd (getRange offset 0) = Some e"
  then have "\<exists>s. (if 0 <s len then getRange offset (offset + len - 1)
            else if 0 <s offset then getRange offset 0 else ([], None)) = (s, Some e)"
    by (auto simp: word_sless_alt prod_eq_iff)
  then show "openReader be c h len offset tr = (Inl e, tr)"
    using openReader_rejected by blast
qed

text \<open>
  Ten bytes from offset 5 of the example object are requested as \<^verbatim>\<open>bytes=5-14\<close>; ten
  bytes from offset -1 are rejected before any call.
\<close>

theorem openReader_range_witness:
  "GetNamespace example_client ([] @ [EvGetNamespace]) = Inr (Some ''ns'')
   \<and> snd (openReader example_backend example_client (Handle PackFile ''abc'') 10 5 [])
       = [EvGetNamespace, EvGetObject ''ns'' ''bucket'' ''data/abc'' (Some ''bytes=5-14'')]
   \<and> openReader example_backend example_client (Handle PackFile ''abc'') 10 (- 1) []
       = (Inl (ErrorString ''Invalid range specified: start=-1 end=8''), [])"
proof -
  let ?h = "Handle PackFile ''abc''"
  have ns: "GetNamespace example_client ([] @ [EvGetNamespace]) = Inr (Some ''ns'')"
    by (simp add: example_eval)
  have fits: "0 < sint (10 :: int64) \<longrightarrow>
                0 \<le> sint (5 :: int64) \<and> sint (5 :: int64) + sint (10 :: int64) - 1 < 2 ^ 63"
    by simp
  have beyond: "0 < sint (10 :: int64)
                 \<and> \<not> (0 \<le> sint (- 1 :: int64)
                        \<and> sint (- 1 :: int64) + sint (10 :: int64) - 1 < 2 ^ 63)"
    by simp
  have req: "(if 0 < sint (10 :: int64)
                then Some (''bytes='' @ show_int (sint (5 :: int64)) @ ''-''
                           @ show_int (sint (5 :: int64) + sint (10 :: int64) - 1))
              else if 0 < sint (5 :: int64)
                then Some (''bytes='' @ show_int (sint (5 :: int64)) @ ''-'')
              else None) = Some ''bytes=5-14''"
    by (simp add: show_eval)
  have err: "''Invalid range specified: start='' @ show_int (sint (- 1 :: int64))
               @ '' end='' @ show_int (sint (- 1 + 10 - 1 :: int64))
             = ''Invalid range specified: start=-1 end=8''"
    by (simp add: show_eval)
  have key: "Filename example_backend ?h = ''data/abc''"
    and bucket: "BucketName (cfg example_backend) = ''bucket''"
    by (simp_all add: example_eval)
  from openReader_range [of example_backend example_client ?h 10 5 "[]" "Some ''ns''"]
  have "GetNamespace example_client ([] @ [EvGetNamespace]) = Inr (Some ''ns'')
        \<and> (0 < sint (10 :: int64) \<longrightarrow>
             0 \<le> sint (5 :: int64) \<and> sint (5 :: int64) + sint (10 :: int64) - 1 < 2 ^ 63) \<longrightarrow>
        snd (openReader example_backend example_client ?h 10 5 [])
          = [] @ [EvGetNamespace,
                  EvGetObject (SafeDeref [] (Some ''ns'')) (BucketName (cfg example_backend))
                    (Filename example_backend ?h)
                    (if 0 < sint (10 :: int64)
                       then Some (''bytes='' @ show_int (sint (5 :: int64)) @ ''-''
                                  @ show_int (sint (5 :: int64) + sint (10 :: int64) - 1))
                     else if 0 < sint (5 :: int64)
                       then Some (''bytes='' @ show_int (sint (5 :: int64)) @ ''-'')
                     else None)]"
    by (rule conjunct2 [THEN conjunct1])
  with ns fits
  have a: "snd (openReader example_backend example_client ?h 10 5 [])
       = [EvGetNamespace, EvGetObject ''ns'' ''bucket'' ''data/abc'' (Some ''bytes=5-14'')]"
    unfolding req key bucket by simp
  from openReader_range [of example_backend example_client ?h 10 "- 1" "[]" "Some ''ns''"]
  have "0 < sint (10 :: int64)
          \<and> \<not> (0 \<le> sint (- 1 :: int64)
                 \<and> sint (- 1 :: int64) + sint (10 :: int64) - 1 < 2 ^ 63) \<longrightarrow>
        openReader example_backend example_client ?h 10 (- 1) []
          = (Inl (ErrorString (''Invalid range specified: start='' @ show_int (sint (- 1 :: int64))
                     @ '' end='' @ show_int (sint (- 1 + 10 - 1 :: int64)))), [])"
    by (rule conjunct2 [THEN conjunct2, THEN conjunct1])
  with beyond
  have b: "openReader example_backend example_client ?h 10 (- 1) []
       = (Inl (ErrorString ''Invalid range specified: start=-1 end=8''), [])"
    unfolding err by blast
  from ns a b show ?thesis
    by blast
qed

section \<open>Stat: a missing object, and the name of a found one\<close>

text \<open>
  Splitting at slashes is cutting at the first slash and splitting the rest, as
  \<^verbatim>\<open>strings.Split\<close> does.
\<close>

lemma split_pieces_slash_unfold:
  "split_pieces ''/'' cur 0 s =
     (if CHR ''/'' \<in> set s
      then (cur @ takeWhile (\<lambda>x. x \<noteq> CHR ''/'') s)
             # split_pieces ''/'' [] 0 (drop 1 (dropWhile (\<lambda>x. x \<noteq> CHR ''/'') s))
      else [cur @ s])"
  by (induction s arbitrary: cur) (auto simp: HasPrefix_def)

lemma Split_slash_Cut:
  "Split s ''/'' =
     (case Cut s ''/'' of
        (before, after, found) \<Rightarrow> if found then before # Split after ''/'' else [s])"
  by (simp add: Split_def Cut_slash split_pieces_slash_unfold [of "[]" s])

lemma split_pieces_not_empty: "split_pieces sep cur skip s \<noteq> []"
  by (induction s arbitrary: cur skip) auto

lemma takeWhile_no_slash:
  "CHR ''/'' \<notin> set s \<Longrightarrow> takeWhile (\<lambda>x. x \<noteq> CHR ''/'') s = s"
  by (induction s) auto

lemma after_last_slash_no_slash: "CHR ''/'' \<notin> set s \<Longrightarrow> after_last_slash s = s"
  by (simp add: after_last_slash_def takeWhile_no_slash)

lemma after_last_slash_Cons:
  "after_last_slash (c # s) = (if CHR ''/'' \<in> set s then after_last_slash s
                               else if c = CHR ''/'' then s else c # s)"
  by (auto simp: after_last_slash_def takeWhile_tail takeWhile_no_slash)

lemma split_pieces_slash_last:
  "last (split_pieces ''/'' cur 0 s)
     = (if CHR ''/'' \<in> set s then after_last_slash s else cur @ s)"
proof (induction s arbitrary: cur)
  case Nil
  then show ?case by simp
next
  case (Cons c s)
  show ?case
    by (simp add: Cons.IH HasPrefix_def split_pieces_not_empty after_last_slash_Cons)
qed

lemma Split_slash_not_empty: "Split s ''/'' \<noteq> []"
  by (simp add: Split_def split_pieces_not_empty)

lemma Split_slash_last:
  "Split s ''/'' ! (length (Split s ''/'') - Suc 0) = after_last_slash s"
proof -
  have "last (Split s ''/'') = after_last_slash s"
    by (simp add: Split_def split_pieces_slash_last after_last_slash_no_slash)
  then show ?thesis
    by (simp add: last_conv_nth Split_slash_not_empty)
qed

text \<open>
  C6. The store reports a missing object by a service error of status 404. When
  \<^verbatim>\<open>Stat\<close> has resolved the namespace and its metadata lookup for the key of the
  handle fails with such an error, \<^verbatim>\<open>Stat\<close> returns the empty file information with
  that error, wrapped: not nil, and an error that \<^verbatim>\<open>IsNotExist\<close> recognises, since
  the classifier looks through the wrapping for the service error and its status.
\<close>

theorem Stat_missing_object_service_error:
  assumes ns: "GetNamespace c (tr @ [EvGetNamespace]) = Inr v"
    and hd: "HeadObject c (tr @ [EvGetNamespace,
               EvHeadObject (SafeDeref [] v) (BucketName (cfg be)) (Filename be h)]) = Inl e"
    and nf: "As_ServiceError e = Some 404"
  shows "Stat be c h tr =
     (Returns (\<lparr>Size = 0, Name = []\<rparr>, Some (Wrapped e ''Stat'')),
      tr @ [EvGetNamespace,
            EvHeadObject (SafeDeref [] v) (BucketName (cfg be)) (Filename be h)])
     \<and> IsNotExist (Some (Wrapped e ''Stat''))"
  using hd nf by (simp add: Stat_def getOCINamespace_def ns Let_def)

text \<open>
  The object \<^verbatim>\<open>data/abc\<close> of the example backend is missing: \<^verbatim>\<open>Stat\<close> returns
  the wrapped service error, which \<^verbatim>\<open>IsNotExist\<close> recognises.
\<close>

theorem Stat_missing_object_service_error_witness:
  "GetNamespace missing_object_client ([] @ [EvGetNamespace]) = Inr (Some ''ns'')
   \<and> HeadObject missing_object_client
        ([] @ [EvGetNamespace, EvHeadObject ''ns'' ''bucket'' ''data/abc''])
       = Inl (ServiceError 404 ''ObjectNotFound'')
   \<and> As_ServiceError (ServiceError 404 ''ObjectNotFound'') = Some 404
   \<and> Stat example_backend missing_object_client (Handle PackFile ''abc'') []
       = (Returns (\<lparr>Size = 0, Name = []\<rparr>,
                   Some (Wrapped (ServiceError 404 ''ObjectNotFound'') ''Stat'')),
          [EvGetNamespace, EvHeadObject ''ns'' ''bucket'' ''data/abc''])
   \<and> IsNotExist (Some (Wrapped (ServiceError 404 ''ObjectNotFound'') ''Stat''))"
proof -
  have ns: "GetNamespace missing_object_client ([] @ [EvGetNamespace]) = Inr (Some ''ns'')"
    by (simp add: missing_object_client_def example_eval)
  have hd: "HeadObject missing_object_client
              ([] @ [EvGetNamespace,
                     EvHeadObject (SafeDeref [] (Some ''ns'')) (BucketName (cfg example_backend))
                       (Filename example_backend (Handle PackFile ''abc''))])
              = Inl (ServiceError 404 ''ObjectNotFound'')"
    by (simp add: missing_object_client_def)
  have nf: "As_ServiceError (ServiceError 404 ''ObjectNotFound'') = Some 404"
    by simp
  from Stat_missing_object_service_error [OF ns hd nf] ns show ?thesis
    by (simp add: missing_object_client_def example_eval)
qed

text \<open>
  When the lookup answers without error and with a status other than 404, \<^verbatim>\<open>Stat\<close>
  returns the size that the store reports and, as the name, the part of the key after
  its last slash; the lookup itself was for the whole key.
\<close>

lemma Stat_found_object:
  assumes ns: "GetNamespace c (tr @ [EvGetNamespace]) = Inr v"
    and hd: "HeadObject c (tr @ [EvGetNamespace,
               EvHeadObject (SafeDeref [] v) (BucketName (cfg be)) (Filename be h)]) = Inr r"
    and raw: "RawResponse r = Some raw" and found: "StatusCode raw \<noteq> 404"
  shows "Stat be c h tr =
     (Returns (\<lparr>Size = SafeDeref 0 (ContentLength r), Name = after_last_slash (Filename be h)\<rparr>,
               None),
      tr @ [EvGetNamespace,
            EvHeadObject (SafeDeref [] v) (BucketName (cfg be)) (Filename be h)])"
  using hd raw found
  by (simp add: Stat_def getOCINamespace_def ns Let_def Split_slash_last Split_slash_not_empty)

text \<open>
  C10. The client reports every answer of the store with a status from 400 on as an
  error, so that a lookup without error never carries the status 404. With such a
  client, whenever \<^verbatim>\<open>Stat\<close> succeeds, the name of the file information it returns is
  the part of the key of the handle after its last slash, the whole key when it has no
  slash, and the one lookup that \<^verbatim>\<open>Stat\<close> issued was for the whole key.
\<close>

theorem Stat_name_is_basename:
  assumes client: "\<And>t r raw. HeadObject c t = Inr r \<Longrightarrow> RawResponse r = Some raw
                     \<Longrightarrow> StatusCode raw \<noteq> 404"
    and succeeds: "fst (Stat be c h tr) = Returns (fi, None)"
  shows "Name fi = after_last_slash (Filename be h)
     \<and> (\<exists>ociNamespace. snd (Stat be c h tr)
           = tr @ [EvGetNamespace,
                   EvHeadObject ociNamespace (BucketName (cfg be)) (Filename be h)])"
proof (cases "GetNamespace c (tr @ [EvGetNamespace])")
  case (Inl e)
  with succeeds show ?thesis
    by (simp add: Stat_def getOCINamespace_def Let_def)
next
  case ns: (Inr v)
  let ?tr2 = "tr @ [EvGetNamespace,
                    EvHeadObject (SafeDeref [] v) (BucketName (cfg be)) (Filename be h)]"
  show ?thesis
  proof (cases "HeadObject c ?tr2")
    case (Inl e)
    with succeeds ns show ?thesis
      by (simp add: Stat_def getOCINamespace_def Let_def)
  next
    case hd: (Inr r)
    show ?thesis
    proof (cases "RawResponse r")
      case None
      with succeeds ns hd show ?thesis
        by (simp add: Stat_def getOCINamespace_def Let_def)
    next
      case (Some raw)
      with client [OF hd] have "StatusCode raw \<noteq> 404"
        by simp
      from Stat_found_object [OF ns hd Some this] succeeds show ?thesis
        by auto
    qed
  qed
qed

text \<open>
  The example client answers every lookup with status 200; \<^verbatim>\<open>Stat\<close> of the object
  \<^verbatim>\<open>data/abc\<close> succeeds with the name \<^verbatim>\<open>abc\<close> after a lookup of
  \<^verbatim>\<open>data/abc\<close>.
\<close>

theorem Stat_name_is_basename_witness:
  "fst (Stat example_backend example_client (Handle PackFile ''abc'') [])
     = Returns (\<lparr>Size = 3, Name = ''abc''\<rparr>, None)
   \<and> Name \<lparr>Size = 3, Name = ''abc''\<rparr>
       = after_last_slash (Filename example_backend (Handle PackFile ''abc''))
   \<and> (\<exists>ociNamespace. snd (Stat example_backend example_client (Handle PackFile ''abc'') [])
         = [] @ [EvGetNamespace,
                 EvHeadObject ociNamespace (BucketName (cfg example_backend))
                   (Filename example_backend (Handle PackFile ''abc''))])"
proof -
  let ?h = "Handle PackFile ''abc''"
  have succeeds: "fst (Stat example_backend example_client ?h [])
     = Returns (\<lparr>Size = 3, Name = ''abc''\<rparr>, None)"
    by (simp add: Stat_def getOCINamespace_def example_eval Let_def Split_def HasPrefix_def)
  have "Name \<lparr>Size = 3, Name = ''abc''\<rparr> = after_last_slash (Filename example_backend ?h)
     \<and> (\<exists>ociNamespace. snd (Stat example_backend example_client ?h [])
           = [] @ [EvGetNamespace,
                   EvHeadObject ociNamespace (BucketName (cfg example_backend))
                     (Filename example_backend ?h)])"
  proof (rule Stat_name_is_basename)
    show "fst (Stat example_backend example_client ?h [])
            = Returns (\<lparr>Size = 3, Name = ''abc''\<rparr>, None)"
      by (rule succeeds)
    show "StatusCode raw \<noteq> 404"
      if "HeadObject example_client t = Inr r" and "RawResponse r = Some raw" for t r raw
      using that by (auto simp: example_client_def)
  qed
  with succeeds show ?thesis
    by blast
qed

section \<open>Remove: a missing object is not an error\<close>

text \<open>
  C5. When \<^verbatim>\<open>Remove\<close> has resolved the namespace and the delete of the object under
  the key of the handle fails, \<^verbatim>\<open>Remove\<close> returns nil if the error is a service error
  of status 404, and otherwise the error itself, wrapped with the name of the operation;
  the delete is its last call.
\<close>

theorem Remove_idempotent:
  assumes ns: "GetNamespace c (tr @ [EvGetNamespace]) = Inr v"
    and del: "DeleteObject c (tr @ [EvGetNamespace,
                EvDeleteObject (SafeDeref [] v) (BucketName (cfg be)) (Filename be h)]) = Some e"
  shows "Remove be c h tr =
     (if IsNotExist (Some e) then None else Some (Wrapped e ''client.RemoveObject''),
      tr @ [EvGetNamespace,
            EvDeleteObject (SafeDeref [] v) (BucketName (cfg be)) (Filename be h)])"
  using del by (simp add: Remove_def getOCINamespace_ok [OF ns] deleteObject_def Let_def)

text \<open>
  The object is already gone: the delete fails with status 404 and \<^verbatim>\<open>Remove\<close>
  succeeds.
\<close>

theorem Remove_idempotent_witness:
  "DeleteObject gone_client ([] @ [EvGetNamespace, EvDeleteObject ''ns'' ''bucket'' ''data/abc''])
     = Some (ServiceError 404 ''ObjectNotFound'')
   \<and> Remove example_backend gone_client (Handle PackFile ''abc'') []
       = (None, [EvGetNamespace, EvDeleteObject ''ns'' ''bucket'' ''data/abc''])"
proof -
  have ns: "GetNamespace gone_client ([] @ [EvGetNamespace]) = Inr (Some ''ns'')"
    by (simp add: gone_client_def example_eval)
  have del: "DeleteObject gone_client
               ([] @ [EvGetNamespace,
                      EvDeleteObject (SafeDeref [] (Some ''ns'')) (BucketName (cfg example_backend))
                        (Filename example_backend (Handle PackFile ''abc''))])
               = Some (ServiceError 404 ''ObjectNotFound'')"
    by (simp add: gone_client_def)
  from Remove_idempotent [OF ns del] show ?thesis
    by (simp add: gone_client_def example_eval)
qed

section \<open>List: cancellation and failing lookups\<close>

lemma events_ok_at:
  "events_ok c ctx fn res tr (pre @ ev # post) \<Longrightarrow> event_ok c ctx fn res (tr @ pre) ev post"
proof (induction pre arbitrary: tr)
  case Nil
  then show ?case by simp
next
  case (Cons a pre)
  from Cons.prems have "events_ok c ctx fn res (tr @ [a]) (pre @ ev # post)"
    by simp
  from Cons.IH [OF this] show ?case
    by simp
qed

lemma list_loop_events_ok:
  "\<exists>evs. snd (list_loop c ctx fn ns b p objs tr) = tr @ evs
     \<and> events_ok c ctx fn (fst (list_loop c ctx fn ns b p objs tr)) tr evs"
proof (induction objs arbitrary: tr)
  case Nil
  show ?case
    by (simp add: event_ok_def split: option.splits)
next
  case (Cons obj objs)
  show ?case
  proof (cases "TrimPrefix (SafeDeref [] (SummaryName obj)) p = []")
    case True
    then show ?thesis
      using Cons.IH [of tr] by simp
  next
    case False
    let ?tr1 = "tr @ [EvHeadObject ns b (SafeDeref [] (SummaryName obj))]"
    show ?thesis
    proof (cases "HeadObject c ?tr1")
      case (Inl e)
      with False show ?thesis
        by (simp add: event_ok_def butlast_append)
    next
      case (Inr r)
      let ?fi = "\<lparr>Size = SafeDeref 0 (ContentLength r),
                  Name = Base (TrimPrefix (SafeDeref [] (SummaryName obj)) p)\<rparr>"
      show ?thesis
      proof (cases "ctx ?tr1")
        case (Some e)
        with False Inr show ?thesis
          by (simp add: event_ok_def butlast_append)
      next
        case c1: None
        show ?thesis
        proof (cases "fn (?tr1 @ [EvCtxErr]) ?fi")
          case (Some e)
          with False Inr c1 show ?thesis
            by (simp add: event_ok_def butlast_append)
        next
          case f: None
          show ?thesis
          proof (cases "ctx (?tr1 @ [EvCtxErr, EvCallback ?fi])")
            case (Some e)
            with False Inr c1 f show ?thesis
              by (simp add: event_ok_def butlast_append)
          next
            case c2: None
            from Cons.IH [of "?tr1 @ [EvCtxErr, EvCallback ?fi, EvCtxErr]"]
            obtain evs where
              tr: "snd (list_loop c ctx fn ns b p objs (?tr1 @ [EvCtxErr, EvCallback ?fi, EvCtxErr]))
                     = (?tr1 @ [EvCtxErr, EvCallback ?fi, EvCtxErr]) @ evs"
              and ok: "events_ok c ctx fn
                     (fst (list_loop c ctx fn ns b p objs (?tr1 @ [EvCtxErr, EvCallback ?fi, EvCtxErr])))
                     (?tr1 @ [EvCtxErr, EvCallback ?fi, EvCtxErr]) evs"
              by blast
            have "snd (list_loop c ctx fn ns b p (obj # objs) tr)
                    = tr @ ([EvHeadObject ns b (SafeDeref [] (SummaryName obj)),
                             EvCtxErr, EvCallback ?fi, EvCtxErr] @ evs)"
              using False Inr c1 f c2 tr by simp
            moreover have "events_ok c ctx fn (fst (list_loop c ctx fn ns b p (obj # objs) tr)) tr
                     ([EvHeadObject ns b (SafeDeref [] (SummaryName obj)),
                       EvCtxErr, EvCallback ?fi, EvCtxErr] @ evs)"
              using False Inr c1 f c2 ok by (simp add: event_ok_def butlast_append)
            ultimately show ?thesis
              by blast
          qed
        qed
      qed
    qed
  qed
qed


lemma List_events_ok:
  "\<exists>evs. snd (List be c ctx t fn tr) = tr @ EvGetNamespace # evs
     \<and> events_ok c ctx fn (fst (List be c ctx t fn tr)) tr (EvGetNamespace # evs)"
proof (cases "GetNamespace c (tr @ [EvGetNamespace])")
  case (Inl e)
  then show ?thesis
    by (simp add: List_def getOCINamespace_def Let_def event_ok_def)
next
  case (Inr v)
  let ?prefix = "if \<not> HasSuffix (fst (Basedir be t)) ''/''
                 then fst (Basedir be t) @ ''/'' else fst (Basedir be t)"
  let ?tr2 = "tr @ [EvGetNamespace, EvListObjects (SafeDeref [] v) (BucketName (cfg be)) ?prefix]"
  show ?thesis
  proof (cases "ListObjects c ?tr2")
    case (Inl e)
    with Inr show ?thesis
      by (simp add: List_def getOCINamespace_def Let_def event_ok_def)
  next
    case objs: (Inr objects)
    let ?loop = "list_loop c ctx fn (SafeDeref [] v) (BucketName (cfg be)) ?prefix objects ?tr2"
    have run: "List be c ctx t fn tr = ?loop"
      using Inr objs by (simp add: List_def getOCINamespace_def Let_def)
    from list_loop_events_ok [of c ctx fn "SafeDeref [] v" "BucketName (cfg be)" ?prefix objects ?tr2]
    obtain evs where tr: "snd ?loop = ?tr2 @ evs" and ok: "events_ok c ctx fn (fst ?loop) ?tr2 evs"
      by blast
    have "snd (List be c ctx t fn tr)
            = tr @ EvGetNamespace
                # (EvListObjects (SafeDeref [] v) (BucketName (cfg be)) ?prefix # evs)"
      using tr by (simp add: run)
    moreover have "events_ok c ctx fn (fst (List be c ctx t fn tr)) tr
            (EvGetNamespace # (EvListObjects (SafeDeref [] v) (BucketName (cfg be)) ?prefix # evs))"
      using ok by (simp add: run event_ok_def)
    ultimately show ?thesis
      by blast
  qed
qed

text \<open>
  C7, as the code has it. In every run of \<^verbatim>\<open>List\<close>, each call of the callback comes
  right after a check of the context that found no cancellation. When the callback
  returns nil, a check of the context follows it; when the callback returns an error,
  the run ends there with that error, and no check follows. A check that finds the
  context cancelled is the last event of the run, and the run returns the cancellation
  error. A metadata lookup that fails is the last event of the run, and the run returns
  its error: the callback is called neither for that entry nor for a later one.
\<close>

theorem List_cancellation_and_metadata_failure:
  "(\<exists>evs. snd (List be c ctx t fn tr) = tr @ evs)
   \<and> (\<forall>pre fi post. snd (List be c ctx t fn tr) = tr @ pre @ EvCallback fi # post \<longrightarrow>
          (\<exists>pre'. pre = pre' @ [EvCtxErr] \<and> ctx (tr @ pre') = None)
          \<and> (fn (tr @ pre) fi = None \<longrightarrow> (\<exists>post'. post = EvCtxErr # post'))
          \<and> (\<forall>e. fn (tr @ pre) fi = Some e \<longrightarrow>
                post = [] \<and> fst (List be c ctx t fn tr) = Some e))
   \<and> (\<forall>pre post e. snd (List be c ctx t fn tr) = tr @ pre @ EvCtxErr # post
            \<and> ctx (tr @ pre) = Some e \<longrightarrow>
          post = [] \<and> fst (List be c ctx t fn tr) = Some e)
   \<and> (\<forall>pre ns b k post e. snd (List be c ctx t fn tr) = tr @ pre @ EvHeadObject ns b k # post
            \<and> HeadObject c (tr @ pre @ [EvHeadObject ns b k]) = Inl e \<longrightarrow>
          post = [] \<and> fst (List be c ctx t fn tr) = Some e)"
proof -
  let ?res = "fst (List be c ctx t fn tr)"
  from List_events_ok [of be c ctx t fn tr]
  obtain evs' where tr: "snd (List be c ctx t fn tr) = tr @ EvGetNamespace # evs'"
    and ok: "events_ok c ctx fn ?res tr (EvGetNamespace # evs')"
    by blast
  let ?evs = "EvGetNamespace # evs'"
  have cb: "(\<exists>pre'. pre = pre' @ [EvCtxErr] \<and> ctx (tr @ pre') = None)
          \<and> (fn (tr @ pre) fi = None \<longrightarrow> (\<exists>post'. post = EvCtxErr # post'))
          \<and> (\<forall>e. fn (tr @ pre) fi = Some e \<longrightarrow> post = [] \<and> ?res = Some e)"
    if run: "snd (List be c ctx t fn tr) = tr @ pre @ EvCallback fi # post" for pre fi post
  proof -
    from run tr have dec: "?evs = pre @ EvCallback fi # post"
      by simp
    from dec have ne: "pre \<noteq> []"
      by (cases pre) auto
    from ok have "event_ok c ctx fn ?res (tr @ pre) (EvCallback fi) post"
      unfolding dec by (rule events_ok_at)
    then have l: "last pre = EvCtxErr" and b: "ctx (tr @ butlast pre) = None"
      and f: "case fn (tr @ pre) fi of
                Some e \<Rightarrow> post = [] \<and> ?res = Some e
              | None \<Rightarrow> post \<noteq> [] \<and> hd post = EvCtxErr"
      using ne by (simp_all add: event_ok_def butlast_append)
    have "pre = butlast pre @ [EvCtxErr]"
      using ne l by (metis append_butlast_last_id)
    with b have "\<exists>pre'. pre = pre' @ [EvCtxErr] \<and> ctx (tr @ pre') = None"
      by blast
    moreover have "\<exists>post'. post = EvCtxErr # post'" if "fn (tr @ pre) fi = None"
      using f that by (cases post) auto
    moreover have "post = [] \<and> ?res = Some e" if "fn (tr @ pre) fi = Some e" for e
      using f that by simp
    ultimately show ?thesis
      by blast
  qed
  have ck: "post = [] \<and> ?res = Some e"
    if run: "snd (List be c ctx t fn tr) = tr @ pre @ EvCtxErr # post"
      and set: "ctx (tr @ pre) = Some e" for pre post e
  proof -
    from run tr have dec: "?evs = pre @ EvCtxErr # post"
      by simp
    from ok have "event_ok c ctx fn ?res (tr @ pre) EvCtxErr post"
      unfolding dec by (rule events_ok_at)
    with set show ?thesis
      by (simp add: event_ok_def)
  qed
  have hd: "post = [] \<and> ?res = Some e"
    if run: "snd (List be c ctx t fn tr) = tr @ pre @ EvHeadObject ns b k # post"
      and fails: "HeadObject c (tr @ pre @ [EvHeadObject ns b k]) = Inl e" for pre ns b k post e
  proof -
    from run tr have dec: "?evs = pre @ EvHeadObject ns b k # post"
      by simp
    from ok have "event_ok c ctx fn ?res (tr @ pre) (EvHeadObject ns b k) post"
      unfolding dec by (rule events_ok_at)
    with fails show ?thesis
      by (simp add: event_ok_def)
  qed
  from tr have "\<exists>evs. snd (List be c ctx t fn tr) = tr @ evs"
    by blast
  with cb ck hd show ?thesis
    by blast
qed

text \<open>
  Two runs of the example backend. In the first the context is cancelled while the
  callback runs: the callback came after a check, the check after the callback finds the
  cancellation, and the run returns it. In the second the metadata lookup fails, and the
  run returns its error.
\<close>

theorem List_cancellation_and_metadata_failure_witness:
  "(\<exists>pre'. [EvGetNamespace, EvListObjects ''ns'' ''bucket'' ''data/'',
             EvHeadObject ''ns'' ''bucket'' ''data/abc'', EvCtxErr] = pre' @ [EvCtxErr]
           \<and> canceled_after_five ([] @ pre') = None)
   \<and> fst (List example_backend example_client canceled_after_five PackFile accept_callback [])
       = Some Canceled
   \<and> fst (List example_backend no_metadata_client background PackFile accept_callback [])
       = Some (ErrorString ''timeout'')"
proof -
  let ?fi = "\<lparr>Size = 3, Name = ''abc''\<rparr>"
  let ?pre = "[EvGetNamespace, EvListObjects ''ns'' ''bucket'' ''data/'',
               EvHeadObject ''ns'' ''bucket'' ''data/abc'', EvCtxErr]"
  let ?run = "List example_backend example_client canceled_after_five PackFile accept_callback []"
  note inst = List_cancellation_and_metadata_failure
         [of example_backend example_client canceled_after_five PackFile accept_callback "[]"]
  have run1: "snd ?run = [] @ ?pre @ EvCallback ?fi # [EvCtxErr]"
    by (simp add: List_eval canceled_after_five_def accept_callback_def)
  have run2: "snd ?run = [] @ (?pre @ [EvCallback ?fi]) @ EvCtxErr # []"
    by (simp add: List_eval canceled_after_five_def accept_callback_def)
  have set: "canceled_after_five ([] @ ?pre @ [EvCallback ?fi]) = Some Canceled"
    by (simp add: canceled_after_five_def)
  from inst have "\<forall>pre fi post. snd ?run = [] @ pre @ EvCallback fi # post \<longrightarrow>
          (\<exists>pre'. pre = pre' @ [EvCtxErr] \<and> canceled_after_five ([] @ pre') = None)"
    by blast
  with run1 have a: "\<exists>pre'. ?pre = pre' @ [EvCtxErr] \<and> canceled_after_five ([] @ pre') = None"
    by blast
  from inst have "\<forall>pre post e. snd ?run = [] @ pre @ EvCtxErr # post
            \<and> canceled_after_five ([] @ pre) = Some e \<longrightarrow>
          post = [] \<and> fst ?run = Some e"
    by blast
  with run2 set have b: "fst ?run = Some Canceled"
    by blast
  let ?run' = "List example_backend no_metadata_client background PackFile accept_callback []"
  have run3: "snd ?run' = [] @ [EvGetNamespace, EvListObjects ''ns'' ''bucket'' ''data/'']
                 @ EvHeadObject ''ns'' ''bucket'' ''data/abc'' # []"
    by (simp add: List_eval no_metadata_client_def)
  have fails: "HeadObject no_metadata_client
                 ([] @ [EvGetNamespace, EvListObjects ''ns'' ''bucket'' ''data/'']
                   @ [EvHeadObject ''ns'' ''bucket'' ''data/abc'']) = Inl (ErrorString ''timeout'')"
    by (simp add: no_metadata_client_def)
  from List_cancellation_and_metadata_failure
         [of example_backend no_metadata_client background PackFile accept_callback "[]"]
  have "\<forall>pre ns b k post e. snd ?run' = [] @ pre @ EvHeadObject ns b k # post
            \<and> HeadObject no_metadata_client ([] @ pre @ [EvHeadObject ns b k]) = Inl e \<longrightarrow>
          post = [] \<and> fst ?run' = Some e"
    by blast
  with run3 fails have c: "fst ?run' = Some (ErrorString ''timeout'')"
    by blast
  from a b c show ?thesis
    by blast
qed

text \<open>
  C7, as the specification has it, fails when a callback returns an error: the run of
  the example backend ends with the call of the callback and returns the callback's
  error, although the context is cancelled by then; nothing checks the context after
  that call.
\<close>

theorem List_callback_error_counterexample:
  "List example_backend example_client canceled_after_five PackFile stop_callback []
     = (Some (ErrorString ''stop''),
        [EvGetNamespace, EvListObjects ''ns'' ''bucket'' ''data/'',
         EvHeadObject ''ns'' ''bucket'' ''data/abc'', EvCtxErr,
         EvCallback \<lparr>Size = 3, Name = ''abc''\<rparr>])
   \<and> canceled_after_five
        [EvGetNamespace, EvListObjects ''ns'' ''bucket'' ''data/'',
         EvHeadObject ''ns'' ''bucket'' ''data/abc'', EvCtxErr,
         EvCallback \<lparr>Size = 3, Name = ''abc''\<rparr>] = Some Canceled"
  by (simp add: List_eval canceled_after_five_def stop_callback_def)

section \<open>Rename: copy, then delete\<close>

text \<open>
  C2. When the old and the new key are the same, \<^verbatim>\<open>Rename\<close> returns nil without
  any call. Otherwise, with the namespace resolved, it issues a copy from the old key to
  the new key in the same bucket, region and namespace. When the copy fails with an
  error that \<^verbatim>\<open>IsNotExist\<close> recognises it returns nil, when the copy fails with
  another error it returns that error, and in both cases the copy is its last call: no
  delete is issued. When the copy succeeds it deletes the old key. In every run a delete
  is the last of exactly three calls, after a copy of its key that succeeded.
\<close>

theorem Rename_state_machine:
  "(Filename be h = l h \<longrightarrow> Rename be c h l tr = (None, tr))
   \<and> (Filename be h \<noteq> l h \<and> GetNamespace c (tr @ [EvGetNamespace]) = Inr v \<longrightarrow>
        Rename be c h l tr =
          (let copy = tr @ [EvGetNamespace,
                            EvCopyObject (SafeDeref [] v) (BucketName (cfg be)) (Filename be h) (l h)
                              (BucketName (cfg be)) (Region (cfg be)) (SafeDeref [] v)];
               delete = copy @ [EvDeleteObject (SafeDeref [] v) (BucketName (cfg be))
                                  (Filename be h)]
           in case CopyObject c copy of
                Some e \<Rightarrow> if IsNotExist (Some e) then (None, copy) else (Some e, copy)
              | None \<Rightarrow> (DeleteObject c delete, delete)))
   \<and> (\<exists>evs. snd (Rename be c h l tr) = tr @ evs
        \<and> (\<forall>ns b k. EvDeleteObject ns b k \<in> set evs \<longrightarrow>
              (\<exists>cp. evs = [EvGetNamespace, cp, EvDeleteObject ns b k]
                 \<and> cp = EvCopyObject ns b k (l h) b (Region (cfg be)) ns
                 \<and> k = Filename be h
                 \<and> CopyObject c (tr @ [EvGetNamespace, cp]) = None)))"
proof (intro conjI impI)
  show "Rename be c h l tr = (None, tr)" if "Filename be h = l h"
    using that by (simp add: Rename_def)
next
  assume "Filename be h \<noteq> l h \<and> GetNamespace c (tr @ [EvGetNamespace]) = Inr v"
  then show "Rename be c h l tr =
          (let copy = tr @ [EvGetNamespace,
                            EvCopyObject (SafeDeref [] v) (BucketName (cfg be)) (Filename be h) (l h)
                              (BucketName (cfg be)) (Region (cfg be)) (SafeDeref [] v)];
               delete = copy @ [EvDeleteObject (SafeDeref [] v) (BucketName (cfg be))
                                  (Filename be h)]
           in case CopyObject c copy of
                Some e \<Rightarrow> if IsNotExist (Some e) then (None, copy) else (Some e, copy)
              | None \<Rightarrow> (DeleteObject c delete, delete))"
    by (auto simp: Rename_def getOCINamespace_ok deleteObject_def Let_def split: option.splits)
next
  show "\<exists>evs. snd (Rename be c h l tr) = tr @ evs
        \<and> (\<forall>ns b k. EvDeleteObject ns b k \<in> set evs \<longrightarrow>
              (\<exists>cp. evs = [EvGetNamespace, cp, EvDeleteObject ns b k]
                 \<and> cp = EvCopyObject ns b k (l h) b (Region (cfg be)) ns
                 \<and> k = Filename be h
                 \<and> CopyObject c (tr @ [EvGetNamespace, cp]) = None))"
    by (cases "GetNamespace c (tr @ [EvGetNamespace])")
       (auto simp: Rename_def getOCINamespace_def deleteObject_def Let_def split: option.splits)
qed

text \<open>
  The example backend moves \<^verbatim>\<open>data/abc\<close> to \<^verbatim>\<open>new/abc\<close>: it resolves the
  namespace, copies and deletes.
\<close>

theorem Rename_state_machine_witness:
  "Filename example_backend (Handle PackFile ''abc'') \<noteq> new_layout (Handle PackFile ''abc'')
   \<and> GetNamespace example_client ([] @ [EvGetNamespace]) = Inr (Some ''ns'')
   \<and> Rename example_backend example_client (Handle PackFile ''abc'') new_layout []
       = (None,
          [EvGetNamespace,
           EvCopyObject ''ns'' ''bucket'' ''data/abc'' ''new/abc'' ''bucket'' ''eu-frankfurt-1'' ''ns'',
           EvDeleteObject ''ns'' ''bucket'' ''data/abc''])"
proof -
  let ?h = "Handle PackFile ''abc''"
  let ?l = new_layout
  have differ: "Filename example_backend ?h \<noteq> ?l ?h"
    by (simp add: example_eval new_layout_def)
  have ns: "GetNamespace example_client ([] @ [EvGetNamespace]) = Inr (Some ''ns'')"
    by (simp add: example_eval)
  from Rename_state_machine [of example_backend ?h ?l example_client "[]" "Some ''ns''"]
  have "Filename example_backend ?h \<noteq> ?l ?h
          \<and> GetNamespace example_client ([] @ [EvGetNamespace]) = Inr (Some ''ns'') \<longrightarrow>
        Rename example_backend example_client ?h ?l [] =
          (let copy = [] @ [EvGetNamespace,
                            EvCopyObject (SafeDeref [] (Some ''ns'')) (BucketName (cfg example_backend))
                              (Filename example_backend ?h) (?l ?h)
                              (BucketName (cfg example_backend)) (Region (cfg example_backend))
                              (SafeDeref [] (Some ''ns''))];
               delete = copy @ [EvDeleteObject (SafeDeref [] (Some ''ns''))
                                  (BucketName (cfg example_backend)) (Filename example_backend ?h)]
           in case CopyObject example_client copy of
                Some e \<Rightarrow> if IsNotExist (Some e) then (None, copy) else (Some e, copy)
              | None \<Rightarrow> (DeleteObject example_client delete, delete))"
    by (rule conjunct2 [THEN conjunct1])
  with differ ns
  have "Rename example_backend example_client ?h ?l [] =
          (let copy = [] @ [EvGetNamespace,
                            EvCopyObject (SafeDeref [] (Some ''ns'')) (BucketName (cfg example_backend))
                              (Filename example_backend ?h) (?l ?h)
                              (BucketName (cfg example_backend)) (Region (cfg example_backend))
                              (SafeDeref [] (Some ''ns''))];
               delete = copy @ [EvDeleteObject (SafeDeref [] (Some ''ns''))
                                  (BucketName (cfg example_backend)) (Filename example_backend ?h)]
           in case CopyObject example_client copy of
                Some e \<Rightarrow> if IsNotExist (Some e) then (None, copy) else (Some e, copy)
              | None \<Rightarrow> (DeleteObject example_client delete, delete))"
    by blast
  also have "\<dots> = (None,
          [EvGetNamespace,
           EvCopyObject ''ns'' ''bucket'' ''data/abc'' ''new/abc'' ''bucket'' ''eu-frankfurt-1'' ''ns'',
           EvDeleteObject ''ns'' ''bucket'' ''data/abc''])"
    by (simp add: example_eval new_layout_def)
  finally show ?thesis
    using differ ns by simp
qed

section \<open>The bucket before the backend is created\<close>

text \<open>
  When the lookup of the bucket fails with an HTTP response, \<^verbatim>\<open>ensureBucketExists\<close>
  creates the bucket if the status is 404 and returns what the creation returns; for
  every other status it returns nil and creates nothing.
\<close>

lemma ensureBucketExists_with_response:
  assumes "GetBucket c (tr @ [EvGetBucket namespace name]) = (response, Some e)"
    and "RawResponse response = Some raw"
  shows "ensureBucketExists c namespace name compartmentOCID tr =
     (if StatusCode raw = 404
      then (Returns (CreateBucket c (tr @ [EvGetBucket namespace name,
                                           EvCreateBucket namespace name compartmentOCID])),
            tr @ [EvGetBucket namespace name, EvCreateBucket namespace name compartmentOCID])
      else (Returns None, tr @ [EvGetBucket namespace name]))"
  using assms by (auto simp: ensureBucketExists_def createBucket_def Let_def)

text \<open>
  In every run, with or without a response, the bucket is created only after a lookup
  that failed with status 404.
\<close>

lemma ensureBucketExists_creates_only_on_404:
  "\<exists>evs. snd (ensureBucketExists c namespace name compartmentOCID tr) = tr @ evs
     \<and> (\<forall>ns n comp. EvCreateBucket ns n comp \<in> set evs \<longleftrightarrow>
          ns = namespace \<and> n = name \<and> comp = compartmentOCID
          \<and> (\<exists>response e raw. GetBucket c (tr @ [EvGetBucket namespace name]) = (response, Some e)
                \<and> RawResponse response = Some raw \<and> StatusCode raw = 404))"
proof (cases "GetBucket c (tr @ [EvGetBucket namespace name])")
  case (Pair response err)
  then show ?thesis
    by (cases err; cases "RawResponse response")
       (auto simp: ensureBucketExists_def createBucket_def Let_def)
qed

text \<open>
  C9: every error of the lookup of the bucket other than a 404 response is to make
  \<^verbatim>\<open>ensureBucketExists\<close> return nil without creating the bucket. A lookup that fails
  before any HTTP response arrives returns its error with a response whose
  \<^verbatim>\<open>RawResponse\<close> is nil. \<^verbatim>\<open>ensureBucketExists\<close> reads the status code through
  that pointer: it panics, and does not return nil.
\<close>

theorem ensureBucketExists_panics_without_response:
  "ensureBucketExists no_response_client ''ns'' ''bucket'' ''compartment'' []
     = (Panics, [EvGetBucket ''ns'' ''bucket''])"
  by (simp add: ensureBucketExists_def no_response_client_def example_eval Let_def)

end
